theory Spec2Isabelle
  imports Complex_Main "HOL-Library.Sublist" "HOL-Library.Multiset"
begin

section \<open>Strings\<close>

text \<open>
  JavaScript strings are modelled as \<open>string\<close>. The model covers ASCII text: \<open>toLowerCase\<close>
  maps \<open>A\<close>..\<open>Z\<close> to \<open>a\<close>..\<open>z\<close> and leaves every other character alone, and \<open>trim\<close> removes
  the ASCII white space characters (tab, line feed, vertical tab, form feed, carriage return,
  space).
\<close>

definition toLowerChar :: "char \<Rightarrow> char" where
  "toLowerChar c =
     (case map_of (zip ''ABCDEFGHIJKLMNOPQRSTUVWXYZ'' ''abcdefghijklmnopqrstuvwxyz'') c of
        Some l \<Rightarrow> l
      | None \<Rightarrow> c)"

definition toLowerCase :: "string \<Rightarrow> string" where
  "toLowerCase s = map toLowerChar s"

text \<open>\<open>hay.includes(needle)\<close>: the needle occurs as a contiguous substring.\<close>

fun includesStr :: "string \<Rightarrow> string \<Rightarrow> bool" where
  "includesStr [] needle = (needle = [])"
| "includesStr (c # cs) needle = (prefix needle (c # cs) \<or> includesStr cs needle)"

text \<open>\<open>xs.join(sep)\<close>.\<close>

fun join :: "string \<Rightarrow> string list \<Rightarrow> string" where
  "join sep [] = []"
| "join sep [x] = x"
| "join sep (x # y # ys) = x @ sep @ join sep (y # ys)"

definition isWhiteSpace :: "char \<Rightarrow> bool" where
  "isWhiteSpace c = (c \<in> set [CHR 0x09, CHR 0x0A, CHR 0x0B, CHR 0x0C, CHR 0x0D, CHR 0x20])"

definition trim :: "string \<Rightarrow> string" where
  "trim s = rev (dropWhile isWhiteSpace (rev (dropWhile isWhiteSpace s)))"

text \<open>
  \<open>x || d\<close> on an optional number: the default is taken when the field is absent and also
  when it is present and zero (zero is falsy).
\<close>

definition orElse :: "'a::zero option \<Rightarrow> 'a \<Rightarrow> 'a" where
  "orElse x d = (case x of None \<Rightarrow> d | Some v \<Rightarrow> if v = 0 then d else v)"

section \<open>Data model (types.ts)\<close>

text \<open>
  JavaScript numbers are modelled as \<open>real\<close> (scores, importance, embeddings), \<open>int\<close>
  (timestamps) and \<open>nat\<close> (counts); rounding of floating point arithmetic is not modelled.
  An optional field is an \<open>option\<close>.
\<close>

datatype MemoryType = Link | Note | Image | Pdf

record AIMetadata =
  summary :: string
  topics :: "string list"
  mood :: "string list"
  colors :: "string list"
  collection :: "string option"
  relatedMemoryIds :: "string list option"
  importance :: "real option"

text \<open>
  The fields \<open>id\<close> and \<open>type\<close> of the source are \<open>id_mem\<close> and \<open>type_mem\<close> here. Timestamps are
  milliseconds since the epoch.
\<close>

record MemoryItem =
  id_mem :: string
  type_mem :: MemoryType
  content :: string
  imageData :: "string option"
  aiMetadata :: AIMetadata
  embedding :: "real list"
  createdAt :: int
  lastResurfaced :: "int option"
  resurfaceCount :: "nat option"

record SearchResult = MemoryItem +
  score :: real

text \<open>\<open>{ ...memory, score }\<close>\<close>

definition withScore :: "MemoryItem \<Rightarrow> real \<Rightarrow> SearchResult" where
  "withScore m s = MemoryItem.extend m (SearchResult.fields s)"

datatype InsightType = Pattern | Trend | Connection | Reminder

record Insight =
  type_ins :: InsightType
  title :: string
  description :: string
  memoryIds :: "string list"
  relevance :: real

section \<open>Related memories (services/gemini: findRelatedMemories)\<close>

text \<open>
  \<open>cosineSimilarity\<close> lives in services/vector, which is not among the sources; every
  function that calls it takes it as the parameter \<open>sim\<close>.
\<close>

type_synonym similarity = "real list \<Rightarrow> real list \<Rightarrow> real"

definition topicOverlap :: "MemoryItem \<Rightarrow> MemoryItem \<Rightarrow> nat" where
  "topicOverlap memory other =
     length (filter (\<lambda>t. list_ex (\<lambda>ot. toLowerCase ot = toLowerCase t)
                                   (topics (aiMetadata other)))
                    (topics (aiMetadata memory)))"

definition finalScore :: "similarity \<Rightarrow> MemoryItem \<Rightarrow> MemoryItem \<Rightarrow> real" where
  "finalScore sim memory other =
     (let similarity = sim (embedding memory) (embedding other);
          topicBoost = (if topicOverlap memory other > 0 then 0.1 else 0)
      in similarity + topicBoost)"

text \<open>The \<open>for (const other of allMemories)\<close> loop, with \<open>related\<close> as the accumulator.\<close>

fun relatedLoop ::
  "similarity \<Rightarrow> MemoryItem \<Rightarrow> real \<Rightarrow> MemoryItem list \<Rightarrow> string list \<Rightarrow> string list" where
  "relatedLoop sim memory threshold [] related = related"
| "relatedLoop sim memory threshold (other # rest) related =
     (if id_mem other = id_mem memory then relatedLoop sim memory threshold rest related
      else if finalScore sim memory other \<ge> threshold
           then relatedLoop sim memory threshold rest (related @ [id_mem other])
           else relatedLoop sim memory threshold rest related)"

definition findRelatedMemories ::
  "similarity \<Rightarrow> MemoryItem \<Rightarrow> MemoryItem list \<Rightarrow> real \<Rightarrow> string list" where
  "findRelatedMemories sim memory allMemories threshold =
     take 5 (relatedLoop sim memory threshold allMemories [])"

definition DEFAULT_THRESHOLD :: real where
  "DEFAULT_THRESHOLD = 0.65"

section \<open>Hybrid search (App: performSearch)\<close>

definition ONE_DAY :: int where
  "ONE_DAY = 24 * 60 * 60 * 1000"

text \<open>
  What \<open>performSearch\<close> hands to \<open>setSearchResults\<close>: \<open>null\<close>, the filtered memories of the
  short-query path (they carry no score), or the scored results of the hybrid path.
\<close>

datatype SearchOutcome = Null | Plain "MemoryItem list" | Ranked "SearchResult list"

text \<open>
  One run of \<open>performSearch\<close>: the value set as search results and the texts for which
  \<open>getEmbedding\<close> was called, in call order.
\<close>

record SearchRun =
  searchResults :: SearchOutcome
  embedCalls :: "string list"

text \<open>The filter predicate of the quick keyword path.\<close>

definition quickKeywordMatch :: "string \<Rightarrow> MemoryItem \<Rightarrow> bool" where
  "quickKeywordMatch lowerQ m =
     (includesStr (toLowerCase (content m)) lowerQ
      \<or> includesStr (toLowerCase (summary (aiMetadata m))) lowerQ
      \<or> list_ex (\<lambda>t. includesStr (toLowerCase t) lowerQ) (topics (aiMetadata m)))"

text \<open>The three boosts added to the similarity of one memory, in source order.\<close>

definition recencyScore :: "int \<Rightarrow> MemoryItem \<Rightarrow> real" where
  "recencyScore NOW memory =
     (let age = NOW - createdAt memory
      in max 0 (1 - real_of_int age / real_of_int (60 * ONE_DAY)))"

definition allMetadataText :: "MemoryItem \<Rightarrow> string" where
  "allMetadataText memory =
     toLowerCase (join '' '' ([content memory, summary (aiMetadata memory)]
                              @ topics (aiMetadata memory) @ mood (aiMetadata memory)))"

definition exactTags :: "MemoryItem \<Rightarrow> string list" where
  "exactTags memory = map toLowerCase (topics (aiMetadata memory) @ mood (aiMetadata memory))"

definition scoreMemory :: "similarity \<Rightarrow> real list \<Rightarrow> int \<Rightarrow> string \<Rightarrow> MemoryItem \<Rightarrow> SearchResult" where
  "scoreMemory sim queryEmbedding NOW lowerQ memory =
     (let score0 = sim queryEmbedding (embedding memory);
          score1 = score0 + recencyScore NOW memory * 0.15;
          score2 = (if includesStr (allMetadataText memory) lowerQ then score1 + 0.25 else score1);
          score3 = (if list_ex (\<lambda>t. t = lowerQ) (exactTags memory) then score2 + 0.35 else score2)
      in withScore memory score3)"

text \<open>
  \<open>.sort((a, b) => b.score - a.score)\<close>: \<open>Array.prototype.sort\<close> is stable, so this is the
  stable sort in descending order of score.
\<close>

definition sortByScore :: "SearchResult list \<Rightarrow> SearchResult list" where
  "sortByScore rs = sort_key (\<lambda>r. - score r) rs"

definition allText :: "MemoryItem \<Rightarrow> string" where
  "allText m =
     toLowerCase (join '' '' ([content m, summary (aiMetadata m)] @ topics (aiMetadata m)))"

definition fallbackResults :: "string \<Rightarrow> MemoryItem list \<Rightarrow> SearchResult list" where
  "fallbackResults lowerQ memories =
     map (\<lambda>m. withScore m 0.5) (filter (\<lambda>m. includesStr (allText m) lowerQ) memories)"

text \<open>
  \<open>getEmbedding\<close> calls the embedding provider and returns \<open>[]\<close> when the call fails (it
  catches the error itself); it is the parameter \<open>getEmbedding\<close>. \<open>NOW\<close> is \<open>Date.now()\<close>. The
  result is what \<open>performSearch\<close> passes to \<open>setSearchResults\<close>; clearing the resurfacing
  flag and the debounce timer around the call are left out.
\<close>

definition performSearch ::
  "similarity \<Rightarrow> (string \<Rightarrow> real list) \<Rightarrow> int \<Rightarrow> MemoryItem list \<Rightarrow> string \<Rightarrow> SearchRun" where
  "performSearch sim getEmbedding NOW memories searchQuery =
     (if trim searchQuery = [] then \<lparr>searchResults = Null, embedCalls = []\<rparr>
      else
        let lowerQ = toLowerCase searchQuery in
        if length searchQuery < 3
        then \<lparr>searchResults = Plain (filter (quickKeywordMatch lowerQ) memories),
              embedCalls = []\<rparr>
        else
          let queryEmbedding = getEmbedding searchQuery;
              scoredResults =
                (if length queryEmbedding > 0
                 then map (scoreMemory sim queryEmbedding NOW lowerQ) memories
                 else []);
              finalResults = filter (\<lambda>r. score r > 0.40) (sortByScore scoredResults)
          in \<lparr>searchResults =
                 Ranked (if length finalResults = 0 then fallbackResults lowerQ memories
                         else finalResults),
               embedCalls = [searchQuery]\<rparr>)"

section \<open>The memory store (services/db)\<close>

text \<open>
  The object store keeps one record per key \<open>id\<close>. \<open>saveMemory\<close> puts a record under its id;
  the request can fail, in which case the promise rejects and the store is unchanged. Which
  writes the store accepts is the parameter \<open>accepts\<close>.
\<close>

type_synonym store = "string \<rightharpoonup> MemoryItem"

definition saveMemory :: "(MemoryItem \<Rightarrow> bool) \<Rightarrow> MemoryItem \<Rightarrow> store \<Rightarrow> store option" where
  "saveMemory accepts memory db =
     (if accepts memory then Some (db(id_mem memory \<mapsto> memory)) else None)"

section \<open>Resurfacing (App: handleResurface)\<close>

definition ONE_WEEK :: int where
  "ONE_WEEK = 7 * 24 * 60 * 60 * 1000"

definition ONE_MONTH :: int where
  "ONE_MONTH = 30 * 24 * 60 * 60 * 1000"

record Candidate =
  memory_cand :: MemoryItem
  score_cand :: real

definition lastSeen :: "MemoryItem \<Rightarrow> int" where
  "lastSeen m = orElse (lastResurfaced m) (createdAt m)"

definition resurfaceCandidate :: "int \<Rightarrow> MemoryItem \<Rightarrow> Candidate" where
  "resurfaceCandidate now m =
     (let age = now - lastSeen m;
          imp = orElse (importance (aiMetadata m)) 0.5;
          cnt = orElse (resurfaceCount m) 0;
          score0 = imp;
          score1 = (if age > ONE_WEEK \<and> age < ONE_MONTH then score0 + 0.3
                    else if age > ONE_MONTH then score0 + 0.2
                    else score0);
          score2 = score1 - real cnt * 0.1
      in \<lparr>memory_cand = m, score_cand = score2\<rparr>)"

text \<open>\<open>{ ...c.memory, lastResurfaced: now, resurfaceCount: (c.memory.resurfaceCount || 0) + 1 }\<close>\<close>

definition markResurfaced :: "int \<Rightarrow> MemoryItem \<Rightarrow> MemoryItem" where
  "markResurfaced now m =
     m\<lparr>lastResurfaced := Some now, resurfaceCount := Some (orElse (resurfaceCount m) 0 + 1)\<rparr>"

text \<open>
  The \<open>.map\<close> over the selected candidates: each step builds the updated memory, issues
  \<open>saveMemory(updated).catch(console.error)\<close> (a rejected write is logged and nothing else
  happens) and returns the updated memory.
\<close>

fun resurfaceUpdates ::
  "(MemoryItem \<Rightarrow> bool) \<Rightarrow> int \<Rightarrow> Candidate list \<Rightarrow> store \<Rightarrow> MemoryItem list \<times> store" where
  "resurfaceUpdates accepts now [] db = ([], db)"
| "resurfaceUpdates accepts now (c # cs) db =
     (let updated = markResurfaced now (memory_cand c);
          db' = (case saveMemory accepts updated db of Some d \<Rightarrow> d | None \<Rightarrow> db);
          (rest, db'') = resurfaceUpdates accepts now cs db'
      in (updated # rest, db''))"

text \<open>
  The result is the value given to \<open>setSearchResults\<close> (\<open>None\<close> on the early return for an
  empty corpus, where nothing is set) and the store after the writes. Setting the resurfacing
  flag and clearing the query text are left out.
\<close>

definition handleResurface ::
  "(MemoryItem \<Rightarrow> bool) \<Rightarrow> int \<Rightarrow> MemoryItem list \<Rightarrow> store \<Rightarrow> MemoryItem list option \<times> store" where
  "handleResurface accepts now memories db =
     (if length memories = 0 then (None, db)
      else
        let candidates = map (resurfaceCandidate now) memories;
            (selected, db') =
               resurfaceUpdates accepts now
                 (take 5 (sort_key (\<lambda>c. - score_cand c) candidates)) db
        in (Some selected, db'))"

section \<open>Saving a memory with its links (App: handleSave)\<close>

text \<open>\<open>{ ...related, aiMetadata: { ...related.aiMetadata, relatedMemoryIds: [...(ids || []), id] } }\<close>\<close>

definition addRelated :: "string \<Rightarrow> MemoryItem \<Rightarrow> MemoryItem" where
  "addRelated newId related =
     related\<lparr>aiMetadata := (aiMetadata related)
       \<lparr>relatedMemoryIds :=
          Some ((case relatedMemoryIds (aiMetadata related) of None \<Rightarrow> [] | Some ids \<Rightarrow> ids)
                @ [newId])\<rparr>\<rparr>"

text \<open>
  The loop over \<open>relatedIds\<close>. Each write is awaited, so a rejected write throws out of the
  loop: the result is the store reached and whether the loop ran to its end.
\<close>

fun updateRelated ::
  "(MemoryItem \<Rightarrow> bool) \<Rightarrow> string \<Rightarrow> MemoryItem list \<Rightarrow> string list \<Rightarrow> store \<Rightarrow> store \<times> bool" where
  "updateRelated accepts newId allMemories [] db = (db, True)"
| "updateRelated accepts newId allMemories (relatedId # rest) db =
     (case find (\<lambda>m. id_mem m = relatedId) allMemories of
        None \<Rightarrow> updateRelated accepts newId allMemories rest db
      | Some related \<Rightarrow>
          (case saveMemory accepts (addRelated newId related) db of
             None \<Rightarrow> (db, False)
           | Some db' \<Rightarrow> updateRelated accepts newId allMemories rest db'))"

text \<open>
  The end of \<open>handleSave\<close>, from the corpus read by \<open>getAllMemories\<close> (the parameter
  \<open>allMemories\<close>) on: find the related ids, store them in the new memory, update the related
  memories, save the new memory.
\<close>

definition saveWithLinks ::
  "(MemoryItem \<Rightarrow> bool) \<Rightarrow> similarity \<Rightarrow> MemoryItem \<Rightarrow> MemoryItem list \<Rightarrow> store \<Rightarrow> store \<times> bool" where
  "saveWithLinks accepts sim newMemory allMemories db =
     (let relatedIds = findRelatedMemories sim newMemory allMemories DEFAULT_THRESHOLD;
          linked = newMemory\<lparr>aiMetadata := (aiMetadata newMemory)
                                \<lparr>relatedMemoryIds := Some relatedIds\<rparr>\<rparr>;
          (db1, ok) = updateRelated accepts (id_mem newMemory) allMemories relatedIds db
      in if ok then (case saveMemory accepts linked db1 of
                       Some db2 \<Rightarrow> (db2, True)
                     | None \<Rightarrow> (db1, False))
         else (db1, False))"

section \<open>Insights (services/gemini: generateInsights)\<close>

text \<open>
  The record of counts starts as the empty object \<open>{}\<close> and is kept as an association list
  in order of insertion. Reading \<open>topicFrequency[topic]\<close> for a key the record does not own
  yields \<open>undefined\<close>, unless the key names a property that every object inherits: then it
  yields that property, a function (or, for \<open>__proto__\<close>, the prototype object), which is
  truthy. Adding 1 to it gives a string, the text of the function followed by \<open>1\<close>, and
  each later occurrence appends another \<open>1\<close>. The text depends on the engine and the code
  only ever uses the value as a number, which it is not: it is \<open>NotNumber\<close> here. The write
  to \<open>__proto__\<close> goes to the inherited setter, which ignores a string, so that key never
  becomes an entry.
\<close>

datatype frequency = Count nat | NotNumber

definition inheritedFunctions :: "string list" where
  "inheritedFunctions =
     [''constructor'', ''hasOwnProperty'', ''isPrototypeOf'', ''propertyIsEnumerable'',
      ''toLocaleString'', ''toString'', ''valueOf'', ''__defineGetter__'',
      ''__defineSetter__'', ''__lookupGetter__'', ''__lookupSetter__'']"

definition inheritedProperties :: "string list" where
  "inheritedProperties = ''__proto__'' # inheritedFunctions"

text \<open>\<open>topicFrequency[topic] = (topicFrequency[topic] || 0) + 1\<close>\<close>

fun bumpTopic :: "string \<Rightarrow> (string \<times> frequency) list \<Rightarrow> (string \<times> frequency) list" where
  "bumpTopic topic [] =
     (if topic = ''__proto__'' then []
      else if topic \<in> set inheritedFunctions then [(topic, NotNumber)]
      else [(topic, Count 1)])"
| "bumpTopic topic ((k, v) # kvs) =
     (if k = topic
      then (k, (case v of Count n \<Rightarrow> Count (n + 1) | NotNumber \<Rightarrow> NotNumber)) # kvs
      else (k, v) # bumpTopic topic kvs)"

definition topicFrequency :: "MemoryItem list \<Rightarrow> (string \<times> frequency) list" where
  "topicFrequency memories =
     fold (\<lambda>m acc. fold bumpTopic (topics (aiMetadata m)) acc) memories []"

text \<open>
  \<open>Object.entries\<close> lists the keys that are array indices (canonical decimal numerals below
  \<open>2^32 - 1\<close>) first, in ascending numeric order, and then the other keys in order of
  insertion.
\<close>

definition digitValue :: "char \<Rightarrow> nat option" where
  "digitValue c = map_of (zip ''0123456789'' [0, 1, 2, 3, 4, 5, 6, 7, 8, 9]) c"

definition arrayIndex :: "string \<Rightarrow> nat option" where
  "arrayIndex s =
     (if s \<noteq> [] \<and> list_all (\<lambda>c. digitValue c \<noteq> None) s \<and> (s = ''0'' \<or> hd s \<noteq> CHR ''0'')
      then (let n = foldl (\<lambda>n c. 10 * n + the (digitValue c)) 0 s
            in if n < 2 ^ 32 - 1 then Some n else None)
      else None)"

definition entries :: "(string \<times> frequency) list \<Rightarrow> (string \<times> frequency) list" where
  "entries kvs =
     sort_key (\<lambda>kv. the (arrayIndex (fst kv))) (filter (\<lambda>kv. arrayIndex (fst kv) \<noteq> None) kvs)
     @ filter (\<lambda>kv. arrayIndex (fst kv) = None) kvs"

text \<open>
  \<open>.sort((a, b) => b[1] - a[1])\<close>. On numbers this is the stable sort in descending order
  of count. When some value is not a number the comparison yields \<open>NaN\<close>, the comparison
  function is not a consistent one, and the language leaves the order to the engine: the
  result is \<open>None\<close>, unless there is at most one entry to sort.
\<close>

definition sortByCount :: "(string \<times> frequency) list \<Rightarrow> (string \<times> frequency) list option" where
  "sortByCount es =
     (if list_all (\<lambda>e. snd e \<noteq> NotNumber) es
      then Some (sort_key (\<lambda>e. case snd e of Count n \<Rightarrow> - int n | NotNumber \<Rightarrow> 0) es)
      else if length es \<le> 1 then Some es
      else None)"

text \<open>
  \<open>.slice(0, 3).filter(([_, count]) => count >= 2)\<close>: a value that is not a number fails
  \<open>count >= 2\<close>, so the entries kept carry numbers.
\<close>

definition atLeastTwo :: "string \<times> frequency \<Rightarrow> (string \<times> nat) option" where
  "atLeastTwo e =
     (case snd e of
        Count n \<Rightarrow> if n \<ge> 2 then Some (fst e, n) else None
      | NotNumber \<Rightarrow> None)"

definition topTopics :: "MemoryItem list \<Rightarrow> (string \<times> nat) list option" where
  "topTopics memories =
     (case sortByCount (entries (topicFrequency memories)) of
        None \<Rightarrow> None
      | Some ordered \<Rightarrow> Some (List.map_filter atLeastTwo (take 3 ordered)))"

text \<open>The decimal numeral of a count, as a template literal prints it.\<close>

fun showNat :: "nat \<Rightarrow> string" where
  "showNat n =
     (if n < 10 then [''0123456789'' ! n]
      else showNat (n div 10) @ [''0123456789'' ! (n mod 10)])"

declare showNat.simps [simp del]

text \<open>The same numeral by a recursion on a bound for the number of digits.\<close>

fun showNatBounded :: "nat \<Rightarrow> nat \<Rightarrow> string" where
  "showNatBounded 0 n = [''0123456789'' ! (n mod 10)]"
| "showNatBounded (Suc b) n =
     (if n < 10 then [''0123456789'' ! n]
      else showNatBounded b (n div 10) @ [''0123456789'' ! (n mod 10)])"

text \<open>The body of \<open>topTopics.forEach\<close>: it pushes one insight or none.\<close>

definition patternInsight :: "MemoryItem list \<Rightarrow> string \<times> nat \<Rightarrow> Insight list" where
  "patternInsight memories tc =
     (let topic = fst tc; count = snd tc;
          relatedMemories = map id_mem (filter (\<lambda>m. topic \<in> set (topics (aiMetadata m))) memories)
      in if length relatedMemories \<ge> 2
         then [\<lparr>type_ins = Pattern,
                title = ''Recurring Topic: '' @ topic,
                description = ''You've saved '' @ showNat count @ '' memories related to '' @ topic,
                memoryIds = relatedMemories,
                relevance = min 1 (real count / real (length memories))\<rparr>]
         else [])"

definition forgottenMemories :: "int \<Rightarrow> MemoryItem list \<Rightarrow> string list" where
  "forgottenMemories now memories =
     map id_mem (take 3 (filter (\<lambda>m. now - lastSeen m > ONE_MONTH
                                     \<and> orElse (importance (aiMetadata m)) 0.5 > 0.6) memories))"

text \<open>
  The result is \<open>None\<close> when the order of the entries, and with it the insights, is left to
  the engine.
\<close>

definition generateInsights :: "int \<Rightarrow> MemoryItem list \<Rightarrow> Insight list option" where
  "generateInsights now memories =
     (if length memories < 3 then Some []
      else
        (case topTopics memories of
           None \<Rightarrow> None
         | Some tops \<Rightarrow>
             Some (concat (map (patternInsight memories) tops)
                   @ (if length (forgottenMemories now memories) > 0
                      then [\<lparr>type_ins = Reminder,
                             title = ''Important Memories to Revisit'',
                             description =
                               ''You have '' @ showNat (length (forgottenMemories now memories))
                               @ '' important memories you haven't seen in a while'',
                             memoryIds = forgottenMemories now memories,
                             relevance = 0.8\<rparr>]
                      else []))))"

section \<open>Content analysis (services/gemini: analyzeContent)\<close>

text \<open>
  The value \<open>JSON.parse\<close> returns is untyped (\<open>any\<close>), so the fields read from it are JSON
  values of any kind.
\<close>

datatype json =
    JNull
  | JBool bool
  | JNum real
  | JStr string
  | JArr "json list"
  | JObj "(string \<times> json) list"

text \<open>
  What the provider call and the parse come to: the call rejects, the response has no text
  (\<open>undefined\<close> or empty), the text is not JSON, or the text parses to a value.
\<close>

datatype ProviderOutcome = Rejected | NoText | Unparsable | Parsed json

text \<open>
  \<open>parsed.key\<close> for the keys read here: the property of an object, \<open>undefined\<close> (\<open>None\<close>) when
  the object lacks it or the value is a number, a string, a boolean or an array. Reading a
  property of \<open>null\<close> throws and is handled in \<open>analyzeContent\<close>.
\<close>

definition property :: "json \<Rightarrow> string \<Rightarrow> json option" where
  "property v key = (case v of JObj kvs \<Rightarrow> map_of kvs key | _ \<Rightarrow> None)"

definition truthy :: "json option \<Rightarrow> bool" where
  "truthy v =
     (case v of
        None \<Rightarrow> False
      | Some JNull \<Rightarrow> False
      | Some (JBool b) \<Rightarrow> b
      | Some (JNum x) \<Rightarrow> x \<noteq> 0
      | Some (JStr s) \<Rightarrow> s \<noteq> []
      | Some (JArr xs) \<Rightarrow> True
      | Some (JObj kvs) \<Rightarrow> True)"

text \<open>\<open>v || "text"\<close>\<close>

definition orText :: "json option \<Rightarrow> string \<Rightarrow> json" where
  "orText v d = (case v of None \<Rightarrow> JStr d | Some j \<Rightarrow> if truthy (Some j) then j else JStr d)"

text \<open>\<open>Array.isArray(v) ? v : []\<close>\<close>

definition arrayOrEmpty :: "json option \<Rightarrow> json list" where
  "arrayOrEmpty v = (case v of Some (JArr xs) \<Rightarrow> xs | _ \<Rightarrow> [])"

text \<open>\<open>typeof v === 'number' ? Math.max(0, Math.min(1, v)) : 0.5\<close>\<close>

definition clampImportance :: "json option \<Rightarrow> real" where
  "clampImportance v = (case v of Some (JNum x) \<Rightarrow> max 0 (min 1 x) | _ \<Rightarrow> 0.5)"

text \<open>The object \<open>analyzeContent\<close> returns; its fields carry the suffix \<open>_raw\<close>.\<close>

record AnalysisResult =
  summary_raw :: json
  topics_raw :: "json list"
  mood_raw :: "json list"
  colors_raw :: "json list"
  collection_raw :: json
  importance_raw :: real

text \<open>The object returned from the \<open>catch\<close> block.\<close>

definition failureMetadata :: AnalysisResult where
  "failureMetadata =
     \<lparr>summary_raw = JStr ''Could not analyze content.'',
      topics_raw = [JStr ''Uncategorized''],
      mood_raw = [],
      colors_raw = [JStr ''#CCCCCC''],
      collection_raw = JStr ''General'',
      importance_raw = 0.5\<rparr>"

text \<open>
  The \<open>try\<close> block of \<open>analyzeContent\<close>. The content, the media and the input type only shape
  the request; the result depends on the outcome of the call alone.
\<close>

definition analyzeContent :: "ProviderOutcome \<Rightarrow> AnalysisResult" where
  "analyzeContent outcome =
     (case outcome of
        Rejected \<Rightarrow> failureMetadata
      | NoText \<Rightarrow> failureMetadata
      | Unparsable \<Rightarrow> failureMetadata
      | Parsed JNull \<Rightarrow> failureMetadata
      | Parsed parsed \<Rightarrow>
          \<lparr>summary_raw = orText (property parsed ''summary'') ''No summary available.'',
           topics_raw = arrayOrEmpty (property parsed ''topics''),
           mood_raw = arrayOrEmpty (property parsed ''mood''),
           colors_raw = arrayOrEmpty (property parsed ''colors''),
           collection_raw = orText (property parsed ''collection'') ''General'',
           importance_raw = clampImportance (property parsed ''importance'')\<rparr>)"

section \<open>Concrete instances\<close>

text \<open>
  Memories, corpora and provider answers at which the model is evaluated below.
  \<open>exampleMemory\<close> builds a note from its id, content, summary, topics, mood, embedding and
  creation time; it has no collection, no related memories, no importance, was never
  resurfaced and has the resurface count 0.
\<close>

definition exampleMemory ::
  "string \<Rightarrow> string \<Rightarrow> string \<Rightarrow> string list \<Rightarrow> string list \<Rightarrow> real list \<Rightarrow> int \<Rightarrow> MemoryItem" where
  "exampleMemory i c s ts ms e t =
     \<lparr>id_mem = i, type_mem = Note, content = c, imageData = None,
      aiMetadata = \<lparr>summary = s, topics = ts, mood = ms, colors = [], collection = None,
                     relatedMemoryIds = None, importance = None\<rparr>,
      embedding = e, createdAt = t, lastResurfaced = None, resurfaceCount = Some 0\<rparr>"

definition relatedNew :: MemoryItem where
  "relatedNew = exampleMemory ''n'' ''new'' ''s'' [''Red''] [] [1] 5"

definition relatedCorpus :: "MemoryItem list" where
  "relatedCorpus =
     [exampleMemory ''n'' ''new'' ''s'' [''Red''] [] [1] 5,
      exampleMemory ''a'' ''x'' ''s'' [''red''] [] [1] 4,
      exampleMemory ''b'' ''y'' ''s'' [''Blue''] [] [1] 3]"

definition calmMemory :: MemoryItem where
  "calmMemory = exampleMemory ''m1'' ''x'' ''y'' [] [''Calm''] [] 0"

definition seaCorpus :: "MemoryItem list" where
  "seaCorpus = [exampleMemory ''m2'' ''zzz'' ''s'' [] [] [1] 0,
                exampleMemory ''m3'' ''Calm sea'' ''s'' [] [] [1] 0]"

definition spaceMemory :: MemoryItem where
  "spaceMemory = exampleMemory ''m4'' ''a b'' ''s'' [] [] [] 0"

definition weekOld :: MemoryItem where
  "weekOld = (exampleMemory ''w'' ''c'' ''s'' [] [] [] 0)
               \<lparr>aiMetadata := (aiMetadata (exampleMemory ''w'' ''c'' ''s'' [] [] [] 0))
                                 \<lparr>importance := Some 0.9\<rparr>\<rparr>"

definition resurfaceCorpus :: "MemoryItem list" where
  "resurfaceCorpus =
     [exampleMemory ''r1'' ''c'' ''s'' [] [] [] 0,
      weekOld,
      (exampleMemory ''r3'' ''c'' ''s'' [] [] [] 0)\<lparr>resurfaceCount := None\<rparr>]"

definition linkCorpus :: "MemoryItem list" where
  "linkCorpus =
     [exampleMemory ''a'' ''x'' ''s'' [''red''] [] [1] 4,
      exampleMemory ''b'' ''y'' ''s'' [''Blue''] [] [1] 3]"

definition linkStore :: store where
  "linkStore = [''a'' \<mapsto> exampleMemory ''a'' ''x'' ''s'' [''red''] [] [1] 4,
                ''b'' \<mapsto> exampleMemory ''b'' ''y'' ''s'' [''Blue''] [] [1] 3]"

definition sixCorpus :: "MemoryItem list" where
  "sixCorpus =
     [exampleMemory ''d1'' ''c'' ''s'' [''Design''] [] [] 0,
      exampleMemory ''d2'' ''c'' ''s'' [''Design''] [] [] 0,
      exampleMemory ''d3'' ''c'' ''s'' [''Design''] [] [] 0,
      exampleMemory ''d4'' ''c'' ''s'' [''Design''] [] [] 0,
      exampleMemory ''d5'' ''c'' ''s'' [''Design''] [] [] 0,
      exampleMemory ''d6'' ''c'' ''s'' [''Travel''] [] [] 0]"

definition constructorCorpus :: "MemoryItem list" where
  "constructorCorpus =
     [exampleMemory ''k1'' ''c'' ''s'' [''constructor''] [] [] 0,
      exampleMemory ''k2'' ''c'' ''s'' [''constructor''] [] [] 0,
      exampleMemory ''k3'' ''c'' ''s'' [''constructor'', ''__proto__''] [] [] 0]"

definition repeatedCorpus :: "MemoryItem list" where
  "repeatedCorpus =
     [exampleMemory ''p1'' ''c'' ''s'' [''Art'', ''Art''] [] [] 0,
      exampleMemory ''p2'' ''c'' ''s'' [''Art''] [] [] 0,
      exampleMemory ''p3'' ''c'' ''s'' [''Code''] [] [] 0]"

definition numericSummary :: json where
  "numericSummary = JObj [(''summary'', JNum 42), (''topics'', JArr []), (''mood'', JArr [])]"

definition sloppyAnswer :: json where
  "sloppyAnswer =
     JObj [(''summary'', JStr ''A note''), (''topics'', JStr ''none''),
           (''importance'', JNum 1.7)]"

section \<open>Properties of findRelatedMemories\<close>

lemma relatedLoop_filter:
  "relatedLoop sim memory threshold all related =
     related @ map id_mem (filter (\<lambda>other. id_mem other \<noteq> id_mem memory
                                        \<and> threshold \<le> finalScore sim memory other) all)"
  by (induction all arbitrary: related) simp_all

lemma topicOverlap_pos:
  "(topicOverlap memory other > 0) =
     (\<exists>t \<in> set (topics (aiMetadata memory)). \<exists>ot \<in> set (topics (aiMetadata other)).
         toLowerCase ot = toLowerCase t)"
  by (auto simp: topicOverlap_def list_ex_iff filter_empty_conv)

text \<open>
  C3. For every memory and corpus, \<open>findRelatedMemories\<close> never returns the memory's own id,
  returns at most 5 ids, returns only ids of memories whose final score (the similarity, plus
  0.1 if some topic of the memory equals some topic of the other one up to case, plus nothing
  otherwise) reaches the threshold, and returns the first such matches in corpus order, with
  no sorting by score.
\<close>

theorem findRelatedMemories_first_matches:
  "id_mem memory \<notin> set (findRelatedMemories sim memory allMemories threshold)
   \<and> length (findRelatedMemories sim memory allMemories threshold) \<le> 5
   \<and> (\<forall>i \<in> set (findRelatedMemories sim memory allMemories threshold).
         \<exists>other \<in> set allMemories. id_mem other = i \<and>
           threshold \<le> sim (embedding memory) (embedding other)
             + (if \<exists>t \<in> set (topics (aiMetadata memory)).
                     \<exists>ot \<in> set (topics (aiMetadata other)). toLowerCase ot = toLowerCase t
                then 0.1 else 0))
   \<and> findRelatedMemories sim memory allMemories threshold =
         take 5 (map id_mem
           (filter (\<lambda>other. id_mem other \<noteq> id_mem memory \<and>
                      threshold \<le> sim (embedding memory) (embedding other)
                        + (if \<exists>t \<in> set (topics (aiMetadata memory)).
                                \<exists>ot \<in> set (topics (aiMetadata other)).
                                   toLowerCase ot = toLowerCase t
                           then 0.1 else 0))
                   allMemories))"
proof -
  let ?P = "\<lambda>other. id_mem other \<noteq> id_mem memory \<and> threshold \<le> finalScore sim memory other"
  have fs: "finalScore sim memory other =
      sim (embedding memory) (embedding other)
        + (if \<exists>t \<in> set (topics (aiMetadata memory)).
                \<exists>ot \<in> set (topics (aiMetadata other)). toLowerCase ot = toLowerCase t
           then 0.1 else 0)" for other
    unfolding finalScore_def Let_def topicOverlap_pos by simp
  have eq: "findRelatedMemories sim memory allMemories threshold =
              take 5 (map id_mem (filter ?P allMemories))"
    by (simp add: findRelatedMemories_def relatedLoop_filter)
  have sub: "set (findRelatedMemories sim memory allMemories threshold)
               \<subseteq> id_mem ` {other \<in> set allMemories. ?P other}"
    unfolding eq using set_take_subset [of 5 "map id_mem (filter ?P allMemories)"] by auto
  have own: "id_mem memory \<notin> set (findRelatedMemories sim memory allMemories threshold)"
    using sub by auto
  have len: "length (findRelatedMemories sim memory allMemories threshold) \<le> 5"
    by (simp add: findRelatedMemories_def)
  have every: "\<forall>i \<in> set (findRelatedMemories sim memory allMemories threshold).
         \<exists>other \<in> set allMemories. id_mem other = i \<and> threshold \<le> finalScore sim memory other"
    using sub by auto
  show ?thesis
    using own len every eq unfolding fs by blast
qed

theorem findRelatedMemories_first_matches_witness:
  "findRelatedMemories (\<lambda>a b. 0.6) relatedNew relatedCorpus DEFAULT_THRESHOLD = [''a'']
   \<and> ''n'' \<notin> set (findRelatedMemories (\<lambda>a b. 0.6) relatedNew relatedCorpus DEFAULT_THRESHOLD)"
proof -
  have v: "findRelatedMemories (\<lambda>a b. 0.6) relatedNew relatedCorpus DEFAULT_THRESHOLD = [''a'']"
    by (simp add: findRelatedMemories_def finalScore_def topicOverlap_def exampleMemory_def
          relatedNew_def relatedCorpus_def DEFAULT_THRESHOLD_def toLowerCase_def toLowerChar_def)
  have n: "id_mem relatedNew = ''n''"
    by (simp add: exampleMemory_def relatedNew_def)
  from findRelatedMemories_first_matches
         [of relatedNew "\<lambda>a b. 0.6" relatedCorpus DEFAULT_THRESHOLD]
  have "id_mem relatedNew
          \<notin> set (findRelatedMemories (\<lambda>a b. 0.6) relatedNew relatedCorpus DEFAULT_THRESHOLD)"
    by (rule conjunct1)
  then show ?thesis
    unfolding n using v by (rule_tac conjI)
qed

section \<open>Properties of the search\<close>

lemma score_withScore [simp]: "score (withScore m s) = s"
  by (simp add: withScore_def MemoryItem.defs SearchResult.defs)

lemma trim_empty_iff: "(trim q = []) = (\<forall>c \<in> set q. isWhiteSpace c)"
proof -
  have "(\<forall>x \<in> set (dropWhile isWhiteSpace q). isWhiteSpace x) = (dropWhile isWhiteSpace q = [])"
  proof (cases "dropWhile isWhiteSpace q")
    case Nil
    show ?thesis unfolding Nil by simp
  next
    case (Cons x xs)
    then have "\<not> isWhiteSpace x"
      using hd_dropWhile [of isWhiteSpace q] by auto
    show ?thesis unfolding Cons using \<open>\<not> isWhiteSpace x\<close> by simp
  qed
  then show ?thesis
    by (simp add: trim_def dropWhile_eq_Nil_conv)
qed

lemma sortByScore_sorted: "sorted_wrt (\<lambda>a b. score b \<le> score a) (sortByScore rs)"
proof -
  have "sorted (map (\<lambda>r. - score r) (sort_key (\<lambda>r. - score r) rs))"
    by (rule sorted_sort_key)
  then show ?thesis
    by (simp add: sortByScore_def sorted_map)
qed

lemma set_sortByScore [simp]: "set (sortByScore rs) = set rs"
  by (simp add: sortByScore_def)

lemma fallback_sorted: "sorted_wrt (\<lambda>a b. score b \<le> score a) (fallbackResults lowerQ memories)"
  by (induction memories) (auto simp: fallbackResults_def)

lemma fallback_scores: "r \<in> set (fallbackResults lowerQ memories) \<Longrightarrow> score r = 0.5"
  by (auto simp: fallbackResults_def)

lemma hybrid_results:
  assumes "trim q \<noteq> []" and "\<not> length q < 3"
  shows "performSearch sim getEmbedding NOW memories q =
           \<lparr>searchResults =
              Ranked (if filter (\<lambda>r. score r > 0.40)
                           (sortByScore (if getEmbedding q = [] then []
                              else map (scoreMemory sim (getEmbedding q) NOW (toLowerCase q))
                                       memories)) = []
                      then fallbackResults (toLowerCase q) memories
                      else filter (\<lambda>r. score r > 0.40)
                           (sortByScore (if getEmbedding q = [] then []
                              else map (scoreMemory sim (getEmbedding q) NOW (toLowerCase q))
                                       memories))),
            embedCalls = [q]\<rparr>"
  using assms by (simp add: performSearch_def Let_def)

text \<open>
  C1 as stated fails. With a failed (empty) query embedding the memory below has boosts of
  0.15 + 0.25 + 0.35 = 0.75, above the threshold, and the search returns no result at all: the
  scoring is skipped, and the keyword fallback does not look at the mood.
\<close>

theorem embedding_failure_boosts_counterexample:
  "score (scoreMemory (\<lambda>a b. 0) [] 0 ''calm'' calmMemory) > 0.40
   \<and> searchResults (performSearch (\<lambda>a b. 0) (\<lambda>t. []) 0 [calmMemory] ''calm'') = Ranked []"
  by code_simp

text \<open>
  C1, amended. In the hybrid path (the query is not blank and has at least 3 characters), if
  the query embedding comes back empty, no memory is scored and no boost is computed: the
  result is exactly the keyword fallback, the memories whose lowercased text (content,
  summary and topics joined by spaces) contains the lowercased query, in corpus order, each
  with the score 0.5.
\<close>

theorem embedding_failure_gives_fallback:
  assumes "trim q \<noteq> []" and "length q \<ge> 3" and "getEmbedding q = []"
  shows "performSearch sim getEmbedding NOW memories q =
           \<lparr>searchResults =
              Ranked (map (\<lambda>m. withScore m 0.5)
                (filter (\<lambda>m. includesStr
                           (toLowerCase (join '' '' ([content m, summary (aiMetadata m)]
                                                     @ topics (aiMetadata m))))
                           (toLowerCase q))
                        memories)),
            embedCalls = [q]\<rparr>"
  using assms by (simp add: hybrid_results sortByScore_def fallbackResults_def allText_def)

theorem embedding_failure_gives_fallback_witness:
  "trim ''calm'' \<noteq> [] \<and> length ''calm'' \<ge> 3
   \<and> performSearch (\<lambda>a b. 1) (\<lambda>t. []) 0 seaCorpus ''calm'' =
         \<lparr>searchResults =
            Ranked [withScore (exampleMemory ''m3'' ''Calm sea'' ''s'' [] [] [1] 0) 0.5],
          embedCalls = [''calm'']\<rparr>"
proof -
  have t: "trim ''calm'' \<noteq> []" by code_simp
  have l: "length ''calm'' \<ge> 3" by simp
  have e: "(\<lambda>t::string. []::real list) ''calm'' = []" by simp
  have v: "map (\<lambda>m. withScore m 0.5)
                (filter (\<lambda>m. includesStr
                           (toLowerCase (join '' '' ([content m, summary (aiMetadata m)]
                                                     @ topics (aiMetadata m))))
                           (toLowerCase ''calm''))
                        seaCorpus)
           = [withScore (exampleMemory ''m3'' ''Calm sea'' ''s'' [] [] [1] 0) 0.5]"
    by code_simp
  show ?thesis
    using embedding_failure_gives_fallback [OF t l e, of "\<lambda>a b. 1" 0 seaCorpus] t l
    unfolding v by simp
qed

lemma scoreMemory_formula:
  "scoreMemory sim e NOW lq m =
     withScore m
       (sim e (embedding m)
        + max 0 (1 - real_of_int (NOW - createdAt m) / real_of_int (60 * (24 * 60 * 60 * 1000))) * 0.15
        + (if includesStr
                (toLowerCase (join '' '' ([content m, summary (aiMetadata m)]
                                          @ topics (aiMetadata m) @ mood (aiMetadata m)))) lq
           then 0.25 else 0)
        + (if \<exists>t \<in> set (topics (aiMetadata m) @ mood (aiMetadata m)). toLowerCase t = lq
           then 0.35 else 0))"
proof -
  let ?A = "includesStr
                (toLowerCase (join '' '' ([content m, summary (aiMetadata m)]
                                          @ topics (aiMetadata m) @ mood (aiMetadata m)))) lq"
  let ?B = "\<exists>t \<in> set (topics (aiMetadata m) @ mood (aiMetadata m)). toLowerCase t = lq"
  have b: "list_ex (\<lambda>t. t = lq) (exactTags m) = ?B"
    by (auto simp: exactTags_def list_ex_iff)
  have r: "recencyScore NOW m =
             max 0 (1 - real_of_int (NOW - createdAt m) / real_of_int (60 * (24 * 60 * 60 * 1000)))"
    by (simp add: recencyScore_def ONE_DAY_def Let_def)
  show ?thesis
    unfolding scoreMemory_def Let_def b r allMetadataText_def
    by (cases ?A; cases ?B) (simp_all only: if_True if_False add_0_right)
qed

text \<open>
  C5. In the hybrid path the results are in descending order of score and every result has a
  score above 0.40. The final score of a memory is its similarity to the query plus the
  recency, substring and exact-tag boosts. When the query embedding is not empty and some
  memory has a final score above 0.40, the results are the memories with their final scores,
  sorted (stably) in descending order of final score, those above 0.40 only. When the query
  embedding is empty or no memory scores above 0.40, the results are exactly the memories
  whose lowercased text (content, summary and topics joined by spaces) contains the lowercased
  query, each with the score 0.5.
\<close>

theorem hybrid_search_ranked_or_fallback:
  assumes "trim q \<noteq> []" and "length q \<ge> 3"
  shows "\<exists>rs. searchResults (performSearch sim getEmbedding NOW memories q) = Ranked rs
     \<and> sorted_wrt (\<lambda>a b. score a \<ge> score b) rs
     \<and> (\<forall>r \<in> set rs. score r > 0.40)
     \<and> (\<forall>m. scoreMemory sim (getEmbedding q) NOW (toLowerCase q) m =
           withScore m
             (sim (getEmbedding q) (embedding m)
              + max 0 (1 - real_of_int (NOW - createdAt m)
                           / real_of_int (60 * (24 * 60 * 60 * 1000))) * 0.15
              + (if includesStr
                      (toLowerCase (join '' '' ([content m, summary (aiMetadata m)]
                                                @ topics (aiMetadata m) @ mood (aiMetadata m))))
                      (toLowerCase q)
                 then 0.25 else 0)
              + (if \<exists>t \<in> set (topics (aiMetadata m) @ mood (aiMetadata m)).
                      toLowerCase t = toLowerCase q
                 then 0.35 else 0)))
     \<and> (getEmbedding q \<noteq> []
          \<and> (\<exists>m \<in> set memories.
                score (scoreMemory sim (getEmbedding q) NOW (toLowerCase q) m) > 0.40) \<longrightarrow>
          rs = filter (\<lambda>r. score r > 0.40)
                 (sort_key (\<lambda>r. - score r)
                    (map (scoreMemory sim (getEmbedding q) NOW (toLowerCase q)) memories)))
     \<and> (getEmbedding q = []
          \<or> (\<forall>m \<in> set memories.
                score (scoreMemory sim (getEmbedding q) NOW (toLowerCase q) m) \<le> 0.40) \<longrightarrow>
          rs = map (\<lambda>m. withScore m 0.5)
                 (filter (\<lambda>m. includesStr
                            (toLowerCase (join '' '' ([content m, summary (aiMetadata m)]
                                                      @ topics (aiMetadata m))))
                            (toLowerCase q))
                         memories))"
proof -
  let ?scored = "if getEmbedding q = [] then []
                 else map (scoreMemory sim (getEmbedding q) NOW (toLowerCase q)) memories"
  let ?ranked = "filter (\<lambda>r. score r > 0.40) (sortByScore ?scored)"
  let ?fb = "fallbackResults (toLowerCase q) memories"
  let ?rs = "if ?ranked = [] then ?fb else ?ranked"
  have res: "searchResults (performSearch sim getEmbedding NOW memories q) = Ranked ?rs"
    using assms by (simp add: hybrid_results Let_def)
  have sorted_ranked: "sorted_wrt (\<lambda>a b. score a \<ge> score b) ?ranked"
    by (rule sorted_wrt_filter) (rule sortByScore_sorted)
  have fb_gt: "\<forall>r \<in> set ?fb. score r > 0.40"
    by (auto simp: fallbackResults_def)
  have ranked_gt: "\<forall>r \<in> set ?ranked. score r > 0.40"
    by simp
  have s: "sorted_wrt (\<lambda>a b. score a \<ge> score b) ?rs"
  proof (cases "?ranked = []")
    case True
    show ?thesis unfolding if_P [OF True] by (rule fallback_sorted)
  next
    case False
    show ?thesis unfolding if_not_P [OF False] by (rule sorted_ranked)
  qed
  have g: "\<forall>r \<in> set ?rs. score r > 0.40"
  proof (cases "?ranked = []")
    case True
    show ?thesis unfolding if_P [OF True] by (rule fb_gt)
  next
    case False
    show ?thesis unfolding if_not_P [OF False] by (rule ranked_gt)
  qed
  have f: "?rs = ?fb"
    if "getEmbedding q = []
        \<or> (\<forall>m \<in> set memories.
              score (scoreMemory sim (getEmbedding q) NOW (toLowerCase q) m) \<le> 0.40)"
  proof -
    have "?ranked = []"
      using that by (auto simp: filter_empty_conv sortByScore_def)
    then show ?thesis by (rule if_P)
  qed
  have r: "?rs = filter (\<lambda>r. score r > 0.40)
                 (sort_key (\<lambda>r. - score r)
                    (map (scoreMemory sim (getEmbedding q) NOW (toLowerCase q)) memories))"
    if ne: "getEmbedding q \<noteq> []"
    and ex: "\<exists>m \<in> set memories.
                score (scoreMemory sim (getEmbedding q) NOW (toLowerCase q) m) > 0.40"
  proof -
    have sc: "?scored = map (scoreMemory sim (getEmbedding q) NOW (toLowerCase q)) memories"
      using ne by simp
    have "?ranked \<noteq> []"
      unfolding sc using ex by (auto simp: filter_empty_conv)
    then have "?rs = ?ranked" by (rule if_not_P)
    then show ?thesis unfolding sc sortByScore_def .
  qed
  have fbdef: "?fb = map (\<lambda>m. withScore m 0.5)
                 (filter (\<lambda>m. includesStr
                            (toLowerCase (join '' '' ([content m, summary (aiMetadata m)]
                                                      @ topics (aiMetadata m))))
                            (toLowerCase q))
                         memories)"
    by (simp add: fallbackResults_def allText_def)
  show ?thesis
    using res s g f r scoreMemory_formula [of sim "getEmbedding q" NOW "toLowerCase q"]
    unfolding fbdef by blast
qed

theorem hybrid_search_ranked_or_fallback_witness:
  "trim ''calm'' \<noteq> [] \<and> length ''calm'' \<ge> 3
   \<and> searchResults (performSearch (\<lambda>a b. 0.3) (\<lambda>t. [1]) 0 seaCorpus ''calm'')
        = Ranked [withScore (exampleMemory ''m3'' ''Calm sea'' ''s'' [] [] [1] 0) 0.7,
                  withScore (exampleMemory ''m2'' ''zzz'' ''s'' [] [] [1] 0) 0.45]
   \<and> sorted_wrt (\<lambda>a b. score a \<ge> score b)
         [withScore (exampleMemory ''m3'' ''Calm sea'' ''s'' [] [] [1] 0) 0.7,
          withScore (exampleMemory ''m2'' ''zzz'' ''s'' [] [] [1] 0) 0.45]"
proof -
  have t: "trim ''calm'' \<noteq> []" by code_simp
  have l: "length ''calm'' \<ge> 3" by simp
  have v: "searchResults (performSearch (\<lambda>a b. 0.3) (\<lambda>t. [1]) 0 seaCorpus ''calm'')
        = Ranked [withScore (exampleMemory ''m3'' ''Calm sea'' ''s'' [] [] [1] 0) 0.7,
                  withScore (exampleMemory ''m2'' ''zzz'' ''s'' [] [] [1] 0) 0.45]"
    by code_simp
  from hybrid_search_ranked_or_fallback [OF t l, of "\<lambda>a b. 0.3" "\<lambda>t. [1]" 0 seaCorpus]
  obtain rs where
    "searchResults (performSearch (\<lambda>a b. 0.3) (\<lambda>t. [1]) 0 seaCorpus ''calm'') = Ranked rs"
    and "sorted_wrt (\<lambda>a b. score a \<ge> score b) rs"
    by blast
  then show ?thesis using t l unfolding v by simp
qed

text \<open>
  C6 as stated fails for a query that is not empty but blank: the query of one space has
  fewer than 3 characters and the memory below contains it, yet the search returns \<open>null\<close>
  (the \<open>trim\<close> guard comes first), not the list of matching memories.
\<close>

theorem short_query_blank_counterexample:
  "'' '' \<noteq> [] \<and> length '' '' < 3
   \<and> includesStr (toLowerCase (content spaceMemory)) (toLowerCase '' '')
   \<and> searchResults (performSearch (\<lambda>a b. 0) (\<lambda>t. []) 0 [spaceMemory] '' '') = Null"
  by code_simp

text \<open>
  C6, amended. For every query that is not blank (not empty and not white space only) and is
  shorter than 3 characters, the search takes the lexical path: it issues no embedding call
  and returns exactly the memories whose content, summary or some topic, lowercased, contains
  the lowercased query, in corpus order.
\<close>

theorem short_query_lexical_only:
  assumes "trim q \<noteq> []" and "length q < 3"
  shows "performSearch sim getEmbedding NOW memories q =
           \<lparr>searchResults =
              Plain (filter (\<lambda>m. includesStr (toLowerCase (content m)) (toLowerCase q)
                               \<or> includesStr (toLowerCase (summary (aiMetadata m))) (toLowerCase q)
                               \<or> (\<exists>t \<in> set (topics (aiMetadata m)).
                                      includesStr (toLowerCase t) (toLowerCase q)))
                            memories),
            embedCalls = []\<rparr>"
proof -
  have "quickKeywordMatch (toLowerCase q) =
          (\<lambda>m. includesStr (toLowerCase (content m)) (toLowerCase q)
                \<or> includesStr (toLowerCase (summary (aiMetadata m))) (toLowerCase q)
                \<or> (\<exists>t \<in> set (topics (aiMetadata m)).
                       includesStr (toLowerCase t) (toLowerCase q)))"
    by (rule ext) (simp add: quickKeywordMatch_def list_ex_iff)
  then show ?thesis
    using assms by (simp add: performSearch_def Let_def)
qed

theorem short_query_lexical_only_witness:
  "trim ''Ca'' \<noteq> [] \<and> length ''Ca'' < 3
   \<and> performSearch (\<lambda>a b. 1) (\<lambda>t. [1]) 0 seaCorpus ''Ca'' =
         \<lparr>searchResults = Plain [exampleMemory ''m3'' ''Calm sea'' ''s'' [] [] [1] 0],
          embedCalls = []\<rparr>"
proof -
  have t: "trim ''Ca'' \<noteq> []" by code_simp
  have l: "length ''Ca'' < 3" by simp
  have v: "filter (\<lambda>m. includesStr (toLowerCase (content m)) (toLowerCase ''Ca'')
                               \<or> includesStr (toLowerCase (summary (aiMetadata m))) (toLowerCase ''Ca'')
                               \<or> (\<exists>t \<in> set (topics (aiMetadata m)).
                                      includesStr (toLowerCase t) (toLowerCase ''Ca'')))
                            seaCorpus = [exampleMemory ''m3'' ''Calm sea'' ''s'' [] [] [1] 0]"
    by code_simp
  show ?thesis
    using short_query_lexical_only [OF t l, of "\<lambda>a b. 1" "\<lambda>t. [1]" 0 seaCorpus] t l
    unfolding v by simp
qed


text \<open>
  C7. The search result is \<open>null\<close> exactly when the query is empty or consists of white space
  only. For every other query (the non-empty queries in that sense), if no memory matches by any
  heuristic (the keyword filter of the short path, a score above 0.40, the fallback text
  match), the result is an empty sequence, not \<open>null\<close>.
\<close>

theorem search_null_iff_blank:
  "((searchResults (performSearch sim getEmbedding NOW memories q) = Null)
      = (q = [] \<or> (\<forall>c \<in> set q. isWhiteSpace c)))
   \<and> (\<not> (q = [] \<or> (\<forall>c \<in> set q. isWhiteSpace c))
        \<and> (\<forall>m \<in> set memories.
               \<not> quickKeywordMatch (toLowerCase q) m
             \<and> \<not> includesStr (allText m) (toLowerCase q)
             \<and> score (scoreMemory sim (getEmbedding q) NOW (toLowerCase q) m) \<le> 0.40)
        \<longrightarrow> searchResults (performSearch sim getEmbedding NOW memories q) = Plain []
          \<or> searchResults (performSearch sim getEmbedding NOW memories q) = Ranked [])"
proof -
  have blank: "(q = [] \<or> (\<forall>c \<in> set q. isWhiteSpace c)) = (trim q = [])"
    by (auto simp: trim_empty_iff)
  have n: "(searchResults (performSearch sim getEmbedding NOW memories q) = Null) = (trim q = [])"
    by (simp add: performSearch_def Let_def)
  have e: "searchResults (performSearch sim getEmbedding NOW memories q) = Plain []
          \<or> searchResults (performSearch sim getEmbedding NOW memories q) = Ranked []"
    if nb: "trim q \<noteq> []"
    and nm: "\<forall>m \<in> set memories.
               \<not> quickKeywordMatch (toLowerCase q) m
             \<and> \<not> includesStr (allText m) (toLowerCase q)
             \<and> score (scoreMemory sim (getEmbedding q) NOW (toLowerCase q) m) \<le> 0.40"
  proof (cases "length q < 3")
    case True
    have "filter (quickKeywordMatch (toLowerCase q)) memories = []"
      using nm by (simp add: filter_empty_conv)
    then show ?thesis
      using nb True by (simp add: performSearch_def Let_def)
  next
    case False
    have r: "filter (\<lambda>r. score r > 0.40)
               (sortByScore (if getEmbedding q = [] then []
                  else map (scoreMemory sim (getEmbedding q) NOW (toLowerCase q)) memories)) = []"
      using nm by (auto simp: filter_empty_conv)
    have f: "fallbackResults (toLowerCase q) memories = []"
      using nm by (simp add: fallbackResults_def filter_empty_conv)
    show ?thesis
      unfolding hybrid_results [OF nb False] r f by simp
  qed
  show ?thesis
    unfolding blank using n e by blast
qed

theorem search_null_iff_blank_witness:
  "searchResults (performSearch (\<lambda>a b. 0) (\<lambda>t. [1]) 0 seaCorpus ''  '') = Null
   \<and> searchResults (performSearch (\<lambda>a b. 0) (\<lambda>t. [1]) 0 [spaceMemory] ''calm'') = Ranked []
   \<and> searchResults (performSearch (\<lambda>a b. 0) (\<lambda>t. [1]) 0 [spaceMemory] ''zz'') = Plain []"
proof -
  have b: "''  '' = [] \<or> (\<forall>c \<in> set ''  ''. isWhiteSpace c)"
    by (simp add: isWhiteSpace_def)
  have a: "searchResults (performSearch (\<lambda>a b. 0) (\<lambda>t. [1]) 0 seaCorpus ''  '') = Null"
    using search_null_iff_blank [of "\<lambda>a b. 0" "\<lambda>t. [1]" 0 seaCorpus "''  ''"] b by blast
  have "searchResults (performSearch (\<lambda>a b. 0) (\<lambda>t. [1]) 0 [spaceMemory] ''calm'') = Ranked []"
    by code_simp
  moreover have "searchResults (performSearch (\<lambda>a b. 0) (\<lambda>t. [1]) 0 [spaceMemory] ''zz'') = Plain []"
    by code_simp
  ultimately show ?thesis using a by blast
qed

section \<open>Properties of the resurfacing score and selection\<close>

lemma orElse_nat: "orElse (x :: nat option) 0 = (case x of None \<Rightarrow> 0 | Some n \<Rightarrow> n)"
  by (simp add: orElse_def split: option.splits)

lemma score_cand_resurface:
  "score_cand (resurfaceCandidate now m) =
     orElse (importance (aiMetadata m)) 0.5
       + (if ONE_WEEK < now - lastSeen m \<and> now - lastSeen m < ONE_MONTH then 0.3
          else if ONE_MONTH < now - lastSeen m then 0.2 else 0)
       - 0.1 * real (orElse (resurfaceCount m) 0)"
  by (simp add: resurfaceCandidate_def Let_def)

lemma memory_cand_resurface [simp]: "memory_cand (resurfaceCandidate now m) = m"
  by (simp add: resurfaceCandidate_def Let_def)

text \<open>
  C2 as stated fails at the boundary: a memory of importance 0.9 never resurfaced, whose age
  is exactly 7 days, scores 0.9, without the bonus of 0.3.
\<close>

theorem resurface_score_week_boundary_counterexample:
  "7 * 24 * 60 * 60 * 1000 - lastSeen weekOld = 7 * 24 * 60 * 60 * 1000
   \<and> importance (aiMetadata weekOld) = Some 0.9
   \<and> resurfaceCount weekOld = Some 0
   \<and> score_cand (resurfaceCandidate (7 * 24 * 60 * 60 * 1000) weekOld) = 0.9
   \<and> score_cand (resurfaceCandidate (7 * 24 * 60 * 60 * 1000) weekOld) \<noteq> 0.9 + 0.3 - 0.1 * 0"
  by code_simp

text \<open>
  C2, amended. The age of a memory is the time since it was last resurfaced or, if it never
  was, since it was created. For every memory whose importance is absent or not zero and
  whose age is not exactly 30 days, the resurfacing score is the importance (0.5 when absent)
  plus 0.3 when 7 days < age < 30 days, plus 0.2 when age > 30 days, plus nothing when
  age \<le> 7 days, minus 0.1 times the resurface count (0 when absent), with no lower bound.
\<close>

theorem resurface_score_formula:
  assumes "importance (aiMetadata m) \<noteq> Some 0"
    and "now - lastSeen m \<noteq> 30 * 24 * 60 * 60 * 1000"
  shows "score_cand (resurfaceCandidate now m) =
     (case importance (aiMetadata m) of None \<Rightarrow> 0.5 | Some i \<Rightarrow> i)
     + (if 7 * 24 * 60 * 60 * 1000 < now - lastSeen m \<and> now - lastSeen m < 30 * 24 * 60 * 60 * 1000
        then 0.3
        else if now - lastSeen m > 30 * 24 * 60 * 60 * 1000 then 0.2
        else 0)
     - 0.1 * real (case resurfaceCount m of None \<Rightarrow> 0 | Some n \<Rightarrow> n)"
proof -
  have i: "orElse (importance (aiMetadata m)) 0.5
             = (case importance (aiMetadata m) of None \<Rightarrow> 0.5 | Some i \<Rightarrow> i)"
    using assms(1) by (simp add: orElse_def split: option.splits)
  show ?thesis
    unfolding score_cand_resurface i orElse_nat
    by (simp add: ONE_WEEK_def ONE_MONTH_def)
qed

theorem resurface_score_formula_witness:
  "importance (aiMetadata weekOld) \<noteq> Some 0
   \<and> 8 * 24 * 60 * 60 * 1000 - lastSeen weekOld \<noteq> 30 * 24 * 60 * 60 * 1000
   \<and> score_cand (resurfaceCandidate (8 * 24 * 60 * 60 * 1000) weekOld) = 0.9 + 0.3 - 0.1 * 0
   \<and> score_cand (resurfaceCandidate (8 * 24 * 60 * 60 * 1000)
                    (weekOld\<lparr>resurfaceCount := Some 15\<rparr>)) < 0"
proof -
  have a: "importance (aiMetadata weekOld) \<noteq> Some 0" by code_simp
  have b: "8 * 24 * 60 * 60 * 1000 - lastSeen weekOld \<noteq> 30 * 24 * 60 * 60 * 1000" by code_simp
  have c: "score_cand (resurfaceCandidate (8 * 24 * 60 * 60 * 1000)
                    (weekOld\<lparr>resurfaceCount := Some 15\<rparr>)) < 0" by code_simp
  have v: "importance (aiMetadata weekOld) = Some 0.9" "resurfaceCount weekOld = Some 0"
    "lastSeen weekOld = 0"
    by code_simp+
  show ?thesis
    using resurface_score_formula [OF a b] a b c unfolding v by simp
qed

text \<open>
  The two cases the formula leaves out. At an age of exactly 30 days neither branch applies:
  the score has no bonus, while one millisecond less gives 0.3 and one more gives 0.2. An
  importance of 0 is replaced by the default 0.5.
\<close>

lemma resurface_score_month_gap:
  "score_cand (resurfaceCandidate (30 * 24 * 60 * 60 * 1000 - 1) weekOld) = 0.9 + 0.3
   \<and> score_cand (resurfaceCandidate (30 * 24 * 60 * 60 * 1000) weekOld) = 0.9
   \<and> score_cand (resurfaceCandidate (30 * 24 * 60 * 60 * 1000 + 1) weekOld) = 0.9 + 0.2"
  by code_simp

lemma resurface_score_zero_importance:
  "score_cand (resurfaceCandidate 0
     (weekOld\<lparr>aiMetadata := (aiMetadata weekOld)\<lparr>importance := Some 0\<rparr>\<rparr>)) = 0.5"
  by code_simp

lemma id_mem_markResurfaced [simp]: "id_mem (markResurfaced now m) = id_mem m"
  by (simp add: markResurfaced_def)

lemma resurfaceUpdates_fst:
  "fst (resurfaceUpdates accepts now cs db) = map (\<lambda>c. markResurfaced now (memory_cand c)) cs"
  by (induction cs arbitrary: db) (simp_all add: Let_def case_prod_beta)

lemma resurfaceUpdates_other:
  "k \<notin> id_mem ` memory_cand ` set cs \<Longrightarrow> snd (resurfaceUpdates accepts now cs db) k = db k"
  by (induction cs arbitrary: db)
     (auto simp: Let_def case_prod_beta saveMemory_def markResurfaced_def)

lemma resurfaceUpdates_hit:
  "distinct (map (\<lambda>c. id_mem (memory_cand c)) cs) \<Longrightarrow> c \<in> set cs \<Longrightarrow>
   snd (resurfaceUpdates accepts now cs db) (id_mem (memory_cand c)) =
     (if accepts (markResurfaced now (memory_cand c)) then Some (markResurfaced now (memory_cand c))
      else db (id_mem (memory_cand c)))"
proof (induction cs arbitrary: db)
  case Nil
  then show ?case by simp
next
  case (Cons a cs)
  show ?case
  proof (cases "c = a")
    case True
    have "id_mem (memory_cand a) \<notin> id_mem ` memory_cand ` set cs"
      using Cons.prems(1) by auto
    then show ?thesis
      using True resurfaceUpdates_other [of "id_mem (memory_cand a)" cs accepts now]
      by (simp add: Let_def case_prod_beta saveMemory_def)
  next
    case False
    then have c: "c \<in> set cs" using Cons.prems(2) by simp
    have d: "distinct (map (\<lambda>c. id_mem (memory_cand c)) cs)" using Cons.prems(1) by simp
    have ne: "id_mem (memory_cand a) \<noteq> id_mem (memory_cand c)"
      using Cons.prems(1) c by auto
    show ?thesis
      using Cons.IH [OF d c] ne
      by (simp add: Let_def case_prod_beta saveMemory_def markResurfaced_def)
  qed
qed


lemma handleResurface_unfold:
  "memories \<noteq> [] \<Longrightarrow>
   handleResurface accepts now memories db =
     (Some (fst (resurfaceUpdates accepts now
              (take 5 (sort_key (\<lambda>c. - score_cand c) (map (resurfaceCandidate now) memories)))
              db)),
      snd (resurfaceUpdates accepts now
              (take 5 (sort_key (\<lambda>c. - score_cand c) (map (resurfaceCandidate now) memories)))
              db))"
  by (simp add: handleResurface_def Let_def case_prod_beta)

text \<open>
  C4. Resurfacing a corpus of n memories selects min(5, n) of them: the selected memories
  (\<open>top\<close>) and the others (\<open>rest\<close>) make up the corpus, \<open>top\<close> is in descending order of score
  and no memory of \<open>rest\<close> scores higher than one of \<open>top\<close>. The memories returned are those of
  \<open>top\<close>, in that order, each with \<open>lastResurfaced\<close> set to the time of the call and
  \<open>resurfaceCount\<close> set to its previous value (0 when absent) plus 1; for an empty corpus the
  handler returns at once and sets nothing. Each returned memory is written to the store
  under its own id: when the ids of the corpus are distinct, whether that write lands depends
  on that write alone. No other record is touched.
\<close>

theorem handleResurface_top_five:
  "\<exists>top rest.
      mset (top @ rest) = mset memories
    \<and> length top = min 5 (length memories)
    \<and> sorted_wrt (\<lambda>a b. score_cand (resurfaceCandidate now a)
                        \<ge> score_cand (resurfaceCandidate now b)) top
    \<and> (\<forall>a \<in> set top. \<forall>b \<in> set rest.
          score_cand (resurfaceCandidate now a) \<ge> score_cand (resurfaceCandidate now b))
    \<and> fst (handleResurface accepts now memories db) =
          (if memories = [] then None
           else Some (map (\<lambda>m. m\<lparr>lastResurfaced := Some now,
                                   resurfaceCount :=
                                     Some ((case resurfaceCount m of None \<Rightarrow> 0 | Some n \<Rightarrow> n) + 1)\<rparr>)
                          top))
    \<and> (distinct (map id_mem memories) \<longrightarrow>
         (\<forall>m \<in> set top.
            snd (handleResurface accepts now memories db) (id_mem m) =
              (if accepts (markResurfaced now m) then Some (markResurfaced now m)
               else db (id_mem m))))
    \<and> (\<forall>k. k \<notin> id_mem ` set top \<longrightarrow>
          snd (handleResurface accepts now memories db) k = db k)"
proof -
  let ?r = "\<lambda>m. score_cand (resurfaceCandidate now m)"
  let ?cands = "map (resurfaceCandidate now) memories"
  let ?sorted = "sort_key (\<lambda>c. - score_cand c) ?cands"
  let ?top = "map memory_cand (take 5 ?sorted)"
  let ?rest = "map memory_cand (drop 5 ?sorted)"
  have cand_eq: "resurfaceCandidate now (memory_cand c) = c" if "c \<in> set ?sorted" for c
    using that by auto
  have perm: "mset (?top @ ?rest) = mset memories"
  proof -
    have "?top @ ?rest = map memory_cand ?sorted"
      by (simp flip: map_append)
    then have "mset (?top @ ?rest) = image_mset memory_cand (mset ?sorted)"
      by simp
    also have "\<dots> = image_mset memory_cand (mset ?cands)"
      by simp
    also have "\<dots> = mset memories"
      by (simp add: image_mset.compositionality comp_def)
    finally show ?thesis .
  qed
  have len: "length ?top = min 5 (length memories)"
    by simp
  have "sorted (map (\<lambda>c. - score_cand c) ?sorted)"
    by (rule sorted_sort_key)
  then have so: "sorted_wrt (\<lambda>a b. score_cand a \<ge> score_cand b) ?sorted"
    by (simp add: sorted_map)
  have so_m: "sorted_wrt (\<lambda>a b. ?r a \<ge> ?r b) (map memory_cand ?sorted)"
    unfolding sorted_wrt_map
    by (rule sorted_wrt_mono_rel [OF _ so]) (simp add: cand_eq)
  have split: "map memory_cand ?sorted = ?top @ ?rest"
    by (simp flip: map_append)
  have st: "sorted_wrt (\<lambda>a b. ?r a \<ge> ?r b) ?top"
    and cross: "\<forall>a \<in> set ?top. \<forall>b \<in> set ?rest. ?r a \<ge> ?r b"
    using so_m unfolding split sorted_wrt_append by blast+
  have upd: "(\<lambda>m. m\<lparr>lastResurfaced := Some now,
                      resurfaceCount :=
                        Some ((case resurfaceCount m of None \<Rightarrow> 0 | Some n \<Rightarrow> n) + 1)\<rparr>)
             = markResurfaced now"
    by (rule ext) (simp add: markResurfaced_def orElse_nat)
  have shown: "fst (handleResurface accepts now memories db) =
          (if memories = [] then None else Some (map (markResurfaced now) ?top))"
    by (simp add: handleResurface_unfold resurfaceUpdates_fst comp_def)
       (simp add: handleResurface_def)
  have hit: "\<forall>m \<in> set ?top.
          snd (handleResurface accepts now memories db) (id_mem m) =
            (if accepts (markResurfaced now m) then Some (markResurfaced now m)
             else db (id_mem m))"
    if d: "distinct (map id_mem memories)"
  proof
    have "mset (map id_mem (map memory_cand ?sorted)) = mset (map id_mem memories)"
      using perm unfolding split by (metis mset_map)
    then have "distinct (map id_mem (map memory_cand ?sorted))"
      using d by (metis mset_eq_imp_distinct_iff)
    then have "distinct (map id_mem (map memory_cand (take 5 ?sorted)))"
      unfolding map_map by (metis distinct_take take_map)
    then have dist: "distinct (map (\<lambda>c. id_mem (memory_cand c)) (take 5 ?sorted))"
      by (simp add: comp_def)
    fix m assume "m \<in> set ?top"
    then obtain c where c: "c \<in> set (take 5 ?sorted)" and m: "m = memory_cand c"
      by auto
    then have ne: "memories \<noteq> []" by auto
    show "snd (handleResurface accepts now memories db) (id_mem m) =
            (if accepts (markResurfaced now m) then Some (markResurfaced now m)
             else db (id_mem m))"
      unfolding handleResurface_unfold [OF ne] m
      using resurfaceUpdates_hit [OF dist c] by simp
  qed
  have other: "\<forall>k. k \<notin> id_mem ` set ?top \<longrightarrow>
          snd (handleResurface accepts now memories db) k = db k"
  proof (intro allI impI)
    fix k assume k: "k \<notin> id_mem ` set ?top"
    show "snd (handleResurface accepts now memories db) k = db k"
    proof (cases "memories = []")
      case True
      then show ?thesis by (simp add: handleResurface_def)
    next
      case False
      have "k \<notin> id_mem ` memory_cand ` set (take 5 ?sorted)"
        using k by simp
      then show ?thesis
        unfolding handleResurface_unfold [OF False]
        using resurfaceUpdates_other by simp
    qed
  qed
  show ?thesis
    using perm len st cross shown hit other unfolding upd by blast
qed


theorem handleResurface_top_five_witness:
  "distinct (map id_mem resurfaceCorpus)
   \<and> (\<exists>sel. fst (handleResurface (\<lambda>m. True) (40 * 24 * 60 * 60 * 1000) resurfaceCorpus Map.empty)
              = Some sel \<and> length sel = 3)
   \<and> fst (handleResurface (\<lambda>m. True) (40 * 24 * 60 * 60 * 1000) resurfaceCorpus Map.empty)
       = Some (map (markResurfaced (40 * 24 * 60 * 60 * 1000))
                [weekOld,
                 exampleMemory ''r1'' ''c'' ''s'' [] [] [] 0,
                 (exampleMemory ''r3'' ''c'' ''s'' [] [] [] 0)\<lparr>resurfaceCount := None\<rparr>])"
proof -
  have d: "distinct (map id_mem resurfaceCorpus)"
    by code_simp
  have n: "resurfaceCorpus \<noteq> []" "length resurfaceCorpus = 3"
    by (simp_all add: resurfaceCorpus_def)
  have v: "fst (handleResurface (\<lambda>m. True) (40 * 24 * 60 * 60 * 1000) resurfaceCorpus Map.empty)
       = Some (map (markResurfaced (40 * 24 * 60 * 60 * 1000))
                [weekOld,
                 exampleMemory ''r1'' ''c'' ''s'' [] [] [] 0,
                 (exampleMemory ''r3'' ''c'' ''s'' [] [] [] 0)\<lparr>resurfaceCount := None\<rparr>])"
    by code_simp
  from handleResurface_top_five [of resurfaceCorpus "40 * 24 * 60 * 60 * 1000" "\<lambda>m. True" Map.empty]
  obtain top where "length top = min 5 (length resurfaceCorpus)"
    and "fst (handleResurface (\<lambda>m. True) (40 * 24 * 60 * 60 * 1000) resurfaceCorpus Map.empty) =
          (if resurfaceCorpus = [] then None
           else Some (map (\<lambda>m. m\<lparr>lastResurfaced := Some (40 * 24 * 60 * 60 * 1000),
                                   resurfaceCount :=
                                     Some ((case resurfaceCount m of None \<Rightarrow> 0 | Some n \<Rightarrow> n) + 1)\<rparr>)
                          top))"
    by blast
  then have "\<exists>sel. fst (handleResurface (\<lambda>m. True) (40 * 24 * 60 * 60 * 1000) resurfaceCorpus Map.empty)
              = Some sel \<and> length sel = 3"
    using n by simp
  then show ?thesis using d v by blast
qed

section \<open>Properties of the store writes\<close>

lemma resurfaceUpdates_cases:
  "snd (resurfaceUpdates accepts now cs db) k = db k
   \<or> (\<exists>c \<in> set cs. id_mem (memory_cand c) = k
         \<and> snd (resurfaceUpdates accepts now cs db) k = Some (markResurfaced now (memory_cand c)))"
proof (induction cs arbitrary: db)
  case Nil
  then show ?case by simp
next
  case (Cons a cs)
  let ?db = "case saveMemory accepts (markResurfaced now (memory_cand a)) db of
               Some d \<Rightarrow> d | None \<Rightarrow> db"
  have step: "snd (resurfaceUpdates accepts now (a # cs) db) = snd (resurfaceUpdates accepts now cs ?db)"
    by (simp add: Let_def case_prod_beta)
  have first: "?db k = db k \<or> (id_mem (memory_cand a) = k \<and> ?db k = Some (markResurfaced now (memory_cand a)))"
    by (auto simp: saveMemory_def)
  from Cons.IH [of ?db] first show ?case
    unfolding step by auto
qed

lemma updateRelated_cases:
  "fst (updateRelated accepts newId allMemories relatedIds db) k = db k
   \<or> (\<exists>related \<in> set allMemories. id_mem related = k
         \<and> fst (updateRelated accepts newId allMemories relatedIds db) k
             = Some (addRelated newId related))"
proof (induction relatedIds arbitrary: db)
  case Nil
  then show ?case by simp
next
  case (Cons relatedId rest)
  show ?case
  proof (cases "find (\<lambda>m. id_mem m = relatedId) allMemories")
    case None
    then show ?thesis using Cons.IH [of db] by simp
  next
    case (Some related)
    then have r: "related \<in> set allMemories" "id_mem related = relatedId"
      by (auto simp: find_Some_iff)
    show ?thesis
    proof (cases "accepts (addRelated newId related)")
      case False
      then show ?thesis using Some by (simp add: saveMemory_def)
    next
      case True
      let ?db = "db(id_mem (addRelated newId related) \<mapsto> addRelated newId related)"
      have step: "updateRelated accepts newId allMemories (relatedId # rest) db
                    = updateRelated accepts newId allMemories rest ?db"
        using Some True by (simp add: saveMemory_def)
      have i: "id_mem (addRelated newId related) = relatedId"
        using r by (simp add: addRelated_def)
      from Cons.IH [of ?db] consider
        (same) "fst (updateRelated accepts newId allMemories rest ?db) k = ?db k"
        | (upd) "\<exists>related \<in> set allMemories. id_mem related = k
                   \<and> fst (updateRelated accepts newId allMemories rest ?db) k
                       = Some (addRelated newId related)"
        by blast
      then show ?thesis
      proof cases
        case same
        show ?thesis
        proof (cases "k = relatedId")
          case True
          then have "?db k = Some (addRelated newId related)"
            using i by simp
          then show ?thesis
            unfolding step using same r True by auto
        next
          case False
          then have "?db k = db k"
            using i by simp
          then show ?thesis
            unfolding step using same by simp
        qed
      next
        case upd
        then show ?thesis unfolding step by blast
      qed
    qed
  qed
qed


lemma saveWithLinks_other:
  "k \<noteq> id_mem newMemory \<Longrightarrow>
   fst (saveWithLinks accepts sim newMemory allMemories db) k =
     fst (updateRelated accepts (id_mem newMemory) allMemories
            (findRelatedMemories sim newMemory allMemories DEFAULT_THRESHOLD) db) k"
  by (simp add: saveWithLinks_def Let_def case_prod_beta saveMemory_def)

lemma handleResurface_cases:
  "snd (handleResurface accepts now memories db) k = db k
   \<or> (\<exists>m \<in> set memories. id_mem m = k
         \<and> snd (handleResurface accepts now memories db) k = Some (markResurfaced now m))"
proof (cases "memories = []")
  case True
  then show ?thesis by (simp add: handleResurface_def)
next
  case False
  let ?top = "take 5 (sort_key (\<lambda>c. - score_cand c) (map (resurfaceCandidate now) memories))"
  have mem: "memory_cand c \<in> set memories" if "c \<in> set ?top" for c
  proof -
    have "c \<in> set (map (resurfaceCandidate now) memories)"
      using that in_set_takeD by fastforce
    then show ?thesis by auto
  qed
  show ?thesis
    unfolding handleResurface_unfold [OF False]
    using resurfaceUpdates_cases [of accepts now ?top db k] mem by auto
qed

text \<open>
  C9. Let the corpus snapshot agree with the store. The writes of the relation linker (the
  end of \<open>handleSave\<close>, for every record but the new memory itself) and of the resurfacing
  handler create and delete no record, and a record they rewrite keeps every field but
  \<open>relatedMemoryIds\<close> (linker) or \<open>lastResurfaced\<close> and \<open>resurfaceCount\<close> (resurfacing).
\<close>

theorem bookkeeping_writes_frame:
  assumes "\<forall>m \<in> set memories. db (id_mem m) = Some m"
  shows "(db k = None \<and> k \<noteq> id_mem newMemory \<longrightarrow>
            fst (saveWithLinks accepts sim newMemory memories db) k = None)
       \<and> (db k = None \<longrightarrow> snd (handleResurface accepts now memories db) k = None)
       \<and> (\<forall>old. db k = Some old \<and> k \<noteq> id_mem newMemory \<longrightarrow>
            (\<exists>new. fst (saveWithLinks accepts sim newMemory memories db) k = Some new
                \<and> id_mem new = id_mem old \<and> type_mem new = type_mem old
                \<and> content new = content old \<and> imageData new = imageData old
                \<and> embedding new = embedding old \<and> createdAt new = createdAt old
                \<and> lastResurfaced new = lastResurfaced old
                \<and> resurfaceCount new = resurfaceCount old
                \<and> summary (aiMetadata new) = summary (aiMetadata old)
                \<and> topics (aiMetadata new) = topics (aiMetadata old)
                \<and> mood (aiMetadata new) = mood (aiMetadata old)
                \<and> colors (aiMetadata new) = colors (aiMetadata old)
                \<and> collection (aiMetadata new) = collection (aiMetadata old)
                \<and> importance (aiMetadata new) = importance (aiMetadata old)))
       \<and> (\<forall>old. db k = Some old \<longrightarrow>
            (\<exists>new. snd (handleResurface accepts now memories db) k = Some new
                \<and> id_mem new = id_mem old \<and> type_mem new = type_mem old
                \<and> content new = content old \<and> imageData new = imageData old
                \<and> embedding new = embedding old \<and> createdAt new = createdAt old
                \<and> aiMetadata new = aiMetadata old))"
proof -
  let ?ids = "findRelatedMemories sim newMemory memories DEFAULT_THRESHOLD"
  let ?link = "fst (updateRelated accepts (id_mem newMemory) memories ?ids db) k"
  let ?res = "snd (handleResurface accepts now memories db) k"
  have link: "?link = db k \<or> (\<exists>old. db k = Some old
                 \<and> ?link = Some (addRelated (id_mem newMemory) old))"
    using updateRelated_cases [of accepts "id_mem newMemory" memories ?ids db k] assms
    by auto
  have res: "?res = db k \<or> (\<exists>old. db k = Some old \<and> ?res = Some (markResurfaced now old))"
    using handleResurface_cases [of accepts now memories db k] assms
    by auto
  have 1: "fst (saveWithLinks accepts sim newMemory memories db) k = None"
    if "db k = None" "k \<noteq> id_mem newMemory"
    using that link by (auto simp: saveWithLinks_other)
  have 2: "?res = None" if "db k = None"
    using that res by auto
  have 3: "\<exists>new. fst (saveWithLinks accepts sim newMemory memories db) k = Some new
                \<and> id_mem new = id_mem old \<and> type_mem new = type_mem old
                \<and> content new = content old \<and> imageData new = imageData old
                \<and> embedding new = embedding old \<and> createdAt new = createdAt old
                \<and> lastResurfaced new = lastResurfaced old
                \<and> resurfaceCount new = resurfaceCount old
                \<and> summary (aiMetadata new) = summary (aiMetadata old)
                \<and> topics (aiMetadata new) = topics (aiMetadata old)
                \<and> mood (aiMetadata new) = mood (aiMetadata old)
                \<and> colors (aiMetadata new) = colors (aiMetadata old)
                \<and> collection (aiMetadata new) = collection (aiMetadata old)
                \<and> importance (aiMetadata new) = importance (aiMetadata old)"
    if "db k = Some old" "k \<noteq> id_mem newMemory" for old
    using that link by (auto simp: saveWithLinks_other addRelated_def)
  have 4: "\<exists>new. ?res = Some new
                \<and> id_mem new = id_mem old \<and> type_mem new = type_mem old
                \<and> content new = content old \<and> imageData new = imageData old
                \<and> embedding new = embedding old \<and> createdAt new = createdAt old
                \<and> aiMetadata new = aiMetadata old"
    if "db k = Some old" for old
    using that res by (auto simp: markResurfaced_def)
  show ?thesis
    using 1 2 3 4 by blast
qed

theorem bookkeeping_writes_frame_witness:
  "list_all (\<lambda>m. linkStore (id_mem m) = Some m) linkCorpus
   \<and> fst (saveWithLinks (\<lambda>m. True) (\<lambda>a b. 0.6) relatedNew linkCorpus linkStore) ''a''
       = Some (addRelated ''n'' (exampleMemory ''a'' ''x'' ''s'' [''red''] [] [1] 4))
   \<and> fst (saveWithLinks (\<lambda>m. True) (\<lambda>a b. 0.6) relatedNew linkCorpus linkStore) ''zz'' = None
   \<and> snd (handleResurface (\<lambda>m. True) 5 linkCorpus linkStore) ''zz'' = None"
proof -
  have c: "list_all (\<lambda>m. linkStore (id_mem m) = Some m) linkCorpus"
    by code_simp
  then have c': "\<forall>m \<in> set linkCorpus. linkStore (id_mem m) = Some m"
    by (simp add: list_all_iff)
  have v: "fst (saveWithLinks (\<lambda>m. True) (\<lambda>a b. 0.6) relatedNew linkCorpus linkStore) ''a''
       = Some (addRelated ''n'' (exampleMemory ''a'' ''x'' ''s'' [''red''] [] [1] 4))"
    by code_simp
  have z: "linkStore ''zz'' = None" "''zz'' \<noteq> id_mem relatedNew"
    by code_simp+
  from bookkeeping_writes_frame [OF c', of "''zz''" relatedNew "\<lambda>m. True" "\<lambda>a b. 0.6" 5] z
  have "fst (saveWithLinks (\<lambda>m. True) (\<lambda>a b. 0.6) relatedNew linkCorpus linkStore) ''zz'' = None"
    and "snd (handleResurface (\<lambda>m. True) 5 linkCorpus linkStore) ''zz'' = None"
    by blast+
  then show ?thesis using c v by blast
qed

section \<open>Properties of the insights\<close>

lemma showNat_bounded: "n \<le> b \<Longrightarrow> showNat n = showNatBounded b n"
proof (induction b arbitrary: n)
  case 0
  then show ?case by (simp add: showNat.simps)
next
  case (Suc b)
  show ?case
  proof (cases "n < 10")
    case True
    then show ?thesis by (simp add: showNat.simps)
  next
    case False
    then have "n div 10 \<le> b" using Suc.prems by simp
    then show ?thesis
      using False Suc.IH [of "n div 10"] by (subst showNat.simps) simp
  qed
qed

lemma showNat_code [code]: "showNat n = showNatBounded n n"
  by (rule showNat_bounded) simp

lemma bumpTopic_keys_subset: "set (map fst (bumpTopic t kvs)) \<subseteq> insert t (set (map fst kvs))"
  by (induction t kvs rule: bumpTopic.induct) auto

lemma bumpTopic_distinct: "distinct (map fst kvs) \<Longrightarrow> distinct (map fst (bumpTopic t kvs))"
proof (induction kvs)
  case Nil
  then show ?case by simp
next
  case (Cons kv kvs)
  obtain k v where kv: "kv = (k, v)" by (cases kv)
  show ?case
    using Cons bumpTopic_keys_subset [of t kvs] unfolding kv by auto
qed

lemma bumpTopic_lookup:
  "t \<notin> set inheritedProperties \<Longrightarrow>
   map_of (bumpTopic t kvs) k =
     (if k = t
      then Some (case map_of kvs t of
                   None \<Rightarrow> Count 1
                 | Some (Count n) \<Rightarrow> Count (n + 1)
                 | Some NotNumber \<Rightarrow> NotNumber)
      else map_of kvs k)"
  by (induction kvs) (auto simp: inheritedProperties_def split: frequency.splits)

lemma fold_bumpTopic:
  assumes "distinct (map fst acc)"
    and "\<forall>t. map_of acc t = (if f t = 0 then None else Some (Count (f t)))"
    and "\<forall>t \<in> set ts. t \<notin> set inheritedProperties"
  shows "distinct (map fst (fold bumpTopic ts acc))
       \<and> (\<forall>t. map_of (fold bumpTopic ts acc) t =
                (if f t + count_list ts t = 0 then None
                 else Some (Count (f t + count_list ts t))))"
  using assms
proof (induction ts arbitrary: acc f)
  case Nil
  then show ?case by simp
next
  case (Cons a ts)
  let ?g = "f(a := f a + 1)"
  have a: "a \<notin> set inheritedProperties"
    using Cons.prems(3) by simp
  have d: "distinct (map fst (bumpTopic a acc))"
    using Cons.prems(1) by (rule bumpTopic_distinct)
  have l: "\<forall>t. map_of (bumpTopic a acc) t = (if ?g t = 0 then None else Some (Count (?g t)))"
    using Cons.prems(2) by (auto simp: bumpTopic_lookup [OF a])
  have r: "\<forall>t \<in> set ts. t \<notin> set inheritedProperties"
    using Cons.prems(3) by simp
  from Cons.IH [OF d l r] show ?case
    by auto
qed

lemma fold_memories_bumpTopic:
  assumes "distinct (map fst acc)"
    and "\<forall>t. map_of acc t = (if f t = 0 then None else Some (Count (f t)))"
    and "\<forall>m \<in> set ms. \<forall>t \<in> set (topics (aiMetadata m)). t \<notin> set inheritedProperties"
  shows "distinct (map fst (fold (\<lambda>m acc. fold bumpTopic (topics (aiMetadata m)) acc) ms acc))
       \<and> (\<forall>t. map_of (fold (\<lambda>m acc. fold bumpTopic (topics (aiMetadata m)) acc) ms acc) t =
                (if f t + count_list (concat (map (\<lambda>m. topics (aiMetadata m)) ms)) t = 0 then None
                 else Some (Count (f t + count_list (concat (map (\<lambda>m. topics (aiMetadata m)) ms)) t))))"
  using assms
proof (induction ms arbitrary: acc f)
  case Nil
  then show ?case by simp
next
  case (Cons m ms)
  let ?acc = "fold bumpTopic (topics (aiMetadata m)) acc"
  let ?g = "\<lambda>t. f t + count_list (topics (aiMetadata m)) t"
  have h: "\<forall>t \<in> set (topics (aiMetadata m)). t \<notin> set inheritedProperties"
    using Cons.prems(3) by simp
  from fold_bumpTopic [OF Cons.prems(1,2) h]
  have d: "distinct (map fst ?acc)"
    and l: "\<forall>t. map_of ?acc t = (if ?g t = 0 then None else Some (Count (?g t)))"
    by blast+
  have r: "\<forall>m \<in> set ms. \<forall>t \<in> set (topics (aiMetadata m)). t \<notin> set inheritedProperties"
    using Cons.prems(3) by simp
  from Cons.IH [OF d l r] show ?case
    by (simp add: add.assoc)
qed

lemma count_list_concat: "count_list (xs @ ys) t = count_list xs t + count_list ys t"
  by (induction xs) auto


lemma topicFrequency_distinct: "distinct (map fst (topicFrequency memories))"
proof -
  have "distinct (map fst (fold bumpTopic ts acc))" if "distinct (map fst acc)" for ts acc
    using that by (induction ts arbitrary: acc) (simp_all add: bumpTopic_distinct)
  then have "distinct (map fst (fold (\<lambda>m acc. fold bumpTopic (topics (aiMetadata m)) acc) ms acc))"
    if "distinct (map fst acc)" for ms acc
    using that by (induction ms arbitrary: acc) simp_all
  from this [of "[]" memories] show ?thesis
    by (simp add: topicFrequency_def)
qed

lemma topicFrequency_lookup:
  assumes "\<forall>m \<in> set memories. \<forall>t \<in> set (topics (aiMetadata m)). t \<notin> set inheritedProperties"
  shows "map_of (topicFrequency memories) t =
     (if count_list (concat (map (\<lambda>m. topics (aiMetadata m)) memories)) t = 0 then None
      else Some (Count (count_list (concat (map (\<lambda>m. topics (aiMetadata m)) memories)) t)))"
  using fold_memories_bumpTopic [of "[]" "\<lambda>t. 0" memories] assms
  by (simp add: topicFrequency_def)

lemma count_list_distinct: "distinct xs \<Longrightarrow> count_list xs t = (if t \<in> set xs then 1 else 0)"
  by (induction xs) auto

lemma count_topics_distinct:
  "\<forall>m \<in> set memories. distinct (topics (aiMetadata m)) \<Longrightarrow>
   count_list (concat (map (\<lambda>m. topics (aiMetadata m)) memories)) t =
     length (filter (\<lambda>m. t \<in> set (topics (aiMetadata m))) memories)"
  by (induction memories) (simp_all add: count_list_concat count_list_distinct)

lemma topicFrequency_member:
  assumes "\<forall>m \<in> set memories. distinct (topics (aiMetadata m))"
    and "\<forall>m \<in> set memories. \<forall>t \<in> set (topics (aiMetadata m)). t \<notin> set inheritedProperties"
  shows "((t, v) \<in> set (topicFrequency memories)) =
           (\<exists>c. v = Count c
                \<and> c = length (filter (\<lambda>m. t \<in> set (topics (aiMetadata m))) memories) \<and> c > 0)"
proof -
  have "((t, v) \<in> set (topicFrequency memories)) = (map_of (topicFrequency memories) t = Some v)"
    using topicFrequency_distinct [of memories] by simp
  then show ?thesis
    unfolding topicFrequency_lookup [OF assms(2)] count_topics_distinct [OF assms(1)] by auto
qed

lemma mset_entries: "mset (entries kvs) = mset kvs"
  by (simp add: entries_def)

lemma set_entries: "set (entries kvs) = set kvs"
  using mset_entries [of kvs] by (metis set_mset_mset)


lemma atLeastTwo_Some: "(atLeastTwo e = Some (t, c)) = (e = (t, Count c) \<and> c \<ge> 2)"
  by (cases e) (auto simp: atLeastTwo_def split: frequency.splits)

lemma set_map_filter_atLeastTwo:
  "((t, c) \<in> set (List.map_filter atLeastTwo xs)) = ((t, Count c) \<in> set xs \<and> c \<ge> 2)"
  by (auto simp: List.map_filter_def atLeastTwo_Some image_iff)
     (metis atLeastTwo_Some option.sel option.distinct(1))+


lemma length_map_filter_le: "length (List.map_filter f xs) \<le> length xs"
  by (simp add: List.map_filter_def)

lemma map_filter_all:
  "\<forall>x \<in> set xs. f x \<noteq> None \<Longrightarrow> length (List.map_filter f xs) = length xs"
  by (simp add: List.map_filter_def filter_id_conv)

text \<open>On numeric entries the sort key orders by descending count.\<close>

lemma sorted_by_count:
  "sorted_wrt (\<lambda>a b. \<forall>m n. snd a = Count m \<and> snd b = Count n \<longrightarrow> m \<ge> n)
     (sort_key (\<lambda>e. case snd e of Count n \<Rightarrow> - int n | NotNumber \<Rightarrow> 0)
        (es :: (string \<times> frequency) list))"
proof -
  let ?key = "\<lambda>e :: string \<times> frequency. case snd e of Count n \<Rightarrow> - int n | NotNumber \<Rightarrow> 0"
  have "sorted (map ?key (sort_key ?key es))"
    by (rule sorted_sort_key)
  then have "sorted_wrt (\<lambda>a b. ?key a \<le> ?key b) (sort_key ?key es)"
    by (simp add: sorted_map)
  then show ?thesis
    by (rule sorted_wrt_mono_rel [rotated]) auto
qed

lemma map_filter_sorted:
  assumes "sorted_wrt (\<lambda>a b. \<forall>m n. snd a = Count m \<and> snd b = Count n \<longrightarrow> m \<ge> n) xs"
  shows "sorted_wrt (\<lambda>a b. snd a \<ge> snd b) (List.map_filter atLeastTwo xs)"
proof -
  have f: "sorted_wrt (\<lambda>a b. \<forall>m n. snd a = Count m \<and> snd b = Count n \<longrightarrow> m \<ge> n)
             (filter (\<lambda>x. atLeastTwo x \<noteq> None) xs)"
    using assms by (rule sorted_wrt_filter)
  have "sorted_wrt (\<lambda>a b. snd ((the \<circ> atLeastTwo) a) \<ge> snd ((the \<circ> atLeastTwo) b))
          (filter (\<lambda>x. atLeastTwo x \<noteq> None) xs)"
  proof (rule sorted_wrt_mono_rel [OF _ f])
    fix a b
    assume a: "a \<in> set (filter (\<lambda>x. atLeastTwo x \<noteq> None) xs)"
      and b: "b \<in> set (filter (\<lambda>x. atLeastTwo x \<noteq> None) xs)"
      and r: "\<forall>m n. snd a = Count m \<and> snd b = Count n \<longrightarrow> m \<ge> n"
    from a obtain t m where am: "atLeastTwo a = Some (t, m)" by auto
    from b obtain u n where bn: "atLeastTwo b = Some (u, n)" by auto
    from am bn have "snd a = Count m" "snd b = Count n"
      by (simp_all add: atLeastTwo_Some)
    then have "m \<ge> n" using r by blast
    then show "snd ((the \<circ> atLeastTwo) a) \<ge> snd ((the \<circ> atLeastTwo) b)"
      using am bn by simp
  qed
  then show ?thesis
    by (simp add: List.map_filter_def sorted_wrt_map)
qed

lemma sortByCount_numeric:
  "\<forall>e \<in> set es. \<exists>c. snd e = Count c \<Longrightarrow>
   sortByCount es = Some (sort_key (\<lambda>e. case snd e of Count n \<Rightarrow> - int n | NotNumber \<Rightarrow> 0) es)"
  by (auto simp: sortByCount_def list_all_iff)

lemma topTopics_numeric:
  assumes "\<forall>e \<in> set (topicFrequency memories). \<exists>c. snd e = Count c"
  shows "topTopics memories =
           Some (List.map_filter atLeastTwo
                  (take 3 (sort_key (\<lambda>e. case snd e of Count n \<Rightarrow> - int n | NotNumber \<Rightarrow> 0)
                             (entries (topicFrequency memories)))))"
  using assms by (simp add: topTopics_def sortByCount_numeric set_entries)

lemma top_three_complete:
  fixes S :: "(string \<times> frequency) list"
  assumes so: "sorted_wrt (\<lambda>a b. \<forall>m n. snd a = Count m \<and> snd b = Count n \<longrightarrow> m \<ge> n) S"
    and num: "\<forall>e \<in> set S. \<exists>c. snd e = Count c"
    and mem: "(t, Count c) \<in> set S" and two: "c \<ge> 2"
    and out: "(t, c) \<notin> set (List.map_filter atLeastTwo (take 3 S))"
  shows "length (List.map_filter atLeastTwo (take 3 S)) = 3
       \<and> (\<forall>x \<in> set (List.map_filter atLeastTwo (take 3 S)). snd x \<ge> c)"
proof -
  have notTake: "(t, Count c) \<notin> set (take 3 S)"
    using out two by (simp add: set_map_filter_atLeastTwo)
  have "set S = set (take 3 S) \<union> set (drop 3 S)"
    by (metis append_take_drop_id set_append)
  then have inDrop: "(t, Count c) \<in> set (drop 3 S)"
    using mem notTake by blast
  have "sorted_wrt (\<lambda>a b. \<forall>m n. snd a = Count m \<and> snd b = Count n \<longrightarrow> m \<ge> n)
          (take 3 S @ drop 3 S)"
    using so by simp
  then have ge: "\<forall>x \<in> set (take 3 S). \<forall>m. snd x = Count m \<longrightarrow> m \<ge> c"
    unfolding sorted_wrt_append using inDrop by fastforce
  have sub: "set (take 3 S) \<subseteq> set S"
    by (rule set_take_subset)
  have all: "\<forall>x \<in> set (take 3 S). atLeastTwo x \<noteq> None"
  proof
    fix x assume x: "x \<in> set (take 3 S)"
    then obtain m where m: "snd x = Count m" using num sub by blast
    then have "m \<ge> 2" using ge x two by fastforce
    then have "atLeastTwo x = Some (fst x, m)"
      using m by (simp add: atLeastTwo_def)
    then show "atLeastTwo x \<noteq> None" by simp
  qed
  have "length S > 3"
    using inDrop by (cases "length S > 3") auto
  then have "length (take 3 S) = 3" by simp
  then have len: "length (List.map_filter atLeastTwo (take 3 S)) = 3"
    using map_filter_all [OF all] by simp
  have "\<forall>x \<in> set (List.map_filter atLeastTwo (take 3 S)). snd x \<ge> c"
  proof
    fix x assume "x \<in> set (List.map_filter atLeastTwo (take 3 S))"
    then have "(fst x, Count (snd x)) \<in> set (take 3 S)"
      using set_map_filter_atLeastTwo [of "fst x" "snd x" "take 3 S"] by simp
    then show "snd x \<ge> c" using ge by fastforce
  qed
  then show ?thesis using len by blast
qed

lemma patternInsight_emits:
  assumes "length (filter (\<lambda>m. fst tc \<in> set (topics (aiMetadata m))) memories) \<ge> 2"
  shows "patternInsight memories tc = [\<lparr>type_ins = Pattern,
                     title = ''Recurring Topic: '' @ fst tc,
                     description = ''You've saved '' @ showNat (snd tc)
                                   @ '' memories related to '' @ fst tc,
                     memoryIds = map id_mem
                       (filter (\<lambda>m. fst tc \<in> set (topics (aiMetadata m))) memories),
                     relevance = min 1 (real (snd tc) / real (length memories))\<rparr>]"
  using assms by (simp add: patternInsight_def Let_def)

lemma patternInsight_type: "i \<in> set (patternInsight memories tc) \<Longrightarrow> type_ins i = Pattern"
  by (auto simp: patternInsight_def Let_def split: if_splits)




text \<open>
  C8 as stated fails in two places. A topic listed twice in one memory is counted once per
  occurrence: in the first corpus two memories carry ``Art'', one of them twice; the count is
  3, not 2, and the relevance of the insight is min(1, 3/3) = 1, not 2/3. And the relevance
  divides by the number of all memories: five memories tagged ``Design'' and one tagged
  ``Travel'' are six memories, and the relevance of the ``Design'' insight is 5/6, not 1.
\<close>

theorem insight_repeated_topic_counterexample:
  "length repeatedCorpus \<ge> 3
   \<and> topicFrequency repeatedCorpus = [(''Art'', Count 3), (''Code'', Count 1)]
   \<and> length (filter (\<lambda>m. ''Art'' \<in> set (topics (aiMetadata m))) repeatedCorpus) = 2
   \<and> map_option (map relevance) (generateInsights 0 repeatedCorpus) = Some [1]
   \<and> length (filter (\<lambda>m. ''Design'' \<in> set (topics (aiMetadata m))) sixCorpus) = 5
   \<and> length (filter (\<lambda>m. ''Travel'' \<in> set (topics (aiMetadata m))) sixCorpus) = 1
   \<and> map_option (map relevance) (generateInsights 0 sixCorpus) = Some [5 / 6]"
  by code_simp

text \<open>
  C8, amended. For every corpus of at least 3 memories in which no memory lists the same
  topic string twice and no topic is the name of a property that every object inherits
  (\<open>constructor\<close>, \<open>toString\<close>, \<open>__proto__\<close> and the like): the count of a topic is the number
  of memories that list exactly that string (case-sensitive); the top topics are at most 3
  topics of count at least 2, in descending order of count, and a topic of count at least 2
  is left out only when three topics of at least its count are in; the pattern insights are,
  in that order, one per top topic (each is carried by at least 2 memories), listing the
  memories that carry the topic, with relevance min(1, count / number of memories). A corpus
  of 5 memories tagged ``Design'' and 1 tagged ``Travel'' yields exactly one insight, the
  pattern insight for ``Design'', with relevance 5/6.
\<close>

theorem insight_patterns:
  assumes "length memories \<ge> 3"
    and "\<forall>m \<in> set memories. distinct (topics (aiMetadata m))"
    and "\<forall>m \<in> set memories. \<forall>t \<in> set (topics (aiMetadata m)). t \<notin> set inheritedProperties"
  shows "\<exists>tops ins.
       topTopics memories = Some tops
     \<and> generateInsights now memories = Some ins
     \<and> (\<forall>t v. ((t, v) \<in> set (topicFrequency memories)) =
              (\<exists>c. v = Count c
                   \<and> c = length (filter (\<lambda>m. t \<in> set (topics (aiMetadata m))) memories)
                   \<and> c > 0))
     \<and> distinct (map fst (topicFrequency memories))
     \<and> (\<forall>t c. (t, c) \<in> set tops \<longrightarrow> (t, Count c) \<in> set (topicFrequency memories) \<and> c \<ge> 2)
     \<and> length tops \<le> 3
     \<and> sorted_wrt (\<lambda>a b. snd a \<ge> snd b) tops
     \<and> (\<forall>t c. (t, Count c) \<in> set (topicFrequency memories) \<and> c \<ge> 2 \<and> (t, c) \<notin> set tops \<longrightarrow>
            length tops = 3 \<and> (\<forall>x \<in> set tops. snd x \<ge> c))
     \<and> filter (\<lambda>i. type_ins i = Pattern) ins =
           map (\<lambda>tc. \<lparr>type_ins = Pattern,
                     title = ''Recurring Topic: '' @ fst tc,
                     description = ''You've saved '' @ showNat (snd tc)
                                   @ '' memories related to '' @ fst tc,
                     memoryIds = map id_mem
                       (filter (\<lambda>m. fst tc \<in> set (topics (aiMetadata m))) memories),
                     relevance = min 1 (real (snd tc) / real (length memories))\<rparr>)
               tops
     \<and> generateInsights now sixCorpus =
           Some [\<lparr>type_ins = Pattern,
                   title = ''Recurring Topic: Design'',
                   description = ''You've saved 5 memories related to Design'',
                   memoryIds = [''d1'', ''d2'', ''d3'', ''d4'', ''d5''],
                   relevance = 5 / 6\<rparr>]"
proof -
  let ?S = "sort_key (\<lambda>e. case snd e of Count n \<Rightarrow> - int n | NotNumber \<Rightarrow> 0)
              (entries (topicFrequency memories))"
  let ?tops = "List.map_filter atLeastTwo (take 3 ?S)"
  have counts: "\<forall>t v. ((t, v) \<in> set (topicFrequency memories)) =
              (\<exists>c. v = Count c
                   \<and> c = length (filter (\<lambda>m. t \<in> set (topics (aiMetadata m))) memories)
                   \<and> c > 0)"
    using topicFrequency_member [OF assms(2,3)] by blast
  have num: "\<forall>e \<in> set (topicFrequency memories). \<exists>c. snd e = Count c"
  proof
    fix e assume "e \<in> set (topicFrequency memories)"
    then have "(fst e, snd e) \<in> set (topicFrequency memories)" by simp
    then show "\<exists>c. snd e = Count c" using counts by blast
  qed
  have tops: "topTopics memories = Some ?tops"
    using num by (rule topTopics_numeric)
  have setS: "set ?S = set (topicFrequency memories)"
    by (simp add: set_entries)
  have sortedS: "sorted_wrt (\<lambda>a b. \<forall>m n. snd a = Count m \<and> snd b = Count n \<longrightarrow> m \<ge> n) ?S"
    by (rule sorted_by_count)
  have numS: "\<forall>e \<in> set ?S. \<exists>c. snd e = Count c"
    using num unfolding setS .
  have sub: "\<forall>t c. (t, c) \<in> set ?tops \<longrightarrow> (t, Count c) \<in> set (topicFrequency memories) \<and> c \<ge> 2"
  proof (intro allI impI)
    fix t c assume "(t, c) \<in> set ?tops"
    then have "(t, Count c) \<in> set (take 3 ?S)" and c: "c \<ge> 2"
      by (simp_all add: set_map_filter_atLeastTwo)
    then have "(t, Count c) \<in> set ?S"
      using set_take_subset [of 3 ?S] by blast
    then show "(t, Count c) \<in> set (topicFrequency memories) \<and> c \<ge> 2"
      using c unfolding setS by simp
  qed
  have len: "length ?tops \<le> 3"
    using length_map_filter_le [of atLeastTwo "take 3 ?S"] by simp
  have sorted_tops: "sorted_wrt (\<lambda>a b. snd a \<ge> snd b) ?tops"
    by (rule map_filter_sorted) (rule sorted_wrt_take [OF sortedS])
  have complete: "\<forall>t c. (t, Count c) \<in> set (topicFrequency memories) \<and> c \<ge> 2
                     \<and> (t, c) \<notin> set ?tops \<longrightarrow>
            length ?tops = 3 \<and> (\<forall>x \<in> set ?tops. snd x \<ge> c)"
  proof (intro allI impI)
    fix t c
    assume h: "(t, Count c) \<in> set (topicFrequency memories) \<and> c \<ge> 2 \<and> (t, c) \<notin> set ?tops"
    then have m: "(t, Count c) \<in> set ?S" unfolding setS by simp
    show "length ?tops = 3 \<and> (\<forall>x \<in> set ?tops. snd x \<ge> c)"
      using top_three_complete [OF sortedS numS m] h by blast
  qed
  have emits: "patternInsight memories tc = [\<lparr>type_ins = Pattern,
                     title = ''Recurring Topic: '' @ fst tc,
                     description = ''You've saved '' @ showNat (snd tc)
                                   @ '' memories related to '' @ fst tc,
                     memoryIds = map id_mem
                       (filter (\<lambda>m. fst tc \<in> set (topics (aiMetadata m))) memories),
                     relevance = min 1 (real (snd tc) / real (length memories))\<rparr>]"
    if "tc \<in> set ?tops" for tc
  proof -
    have "(fst tc, snd tc) \<in> set ?tops" using that by simp
    then have "(fst tc, Count (snd tc)) \<in> set (topicFrequency memories)" and two: "snd tc \<ge> 2"
      using sub by blast+
    then have "snd tc = length (filter (\<lambda>m. fst tc \<in> set (topics (aiMetadata m))) memories)"
      using counts by blast
    then show ?thesis
      using two patternInsight_emits [of tc memories] by simp
  qed
  have pat: "concat (map (patternInsight memories) ?tops) =
               map (\<lambda>tc. \<lparr>type_ins = Pattern,
                     title = ''Recurring Topic: '' @ fst tc,
                     description = ''You've saved '' @ showNat (snd tc)
                                   @ '' memories related to '' @ fst tc,
                     memoryIds = map id_mem
                       (filter (\<lambda>m. fst tc \<in> set (topics (aiMetadata m))) memories),
                     relevance = min 1 (real (snd tc) / real (length memories))\<rparr>)
                   ?tops"
  proof -
    have "map (patternInsight memories) ?tops =
            map (\<lambda>tc. [\<lparr>type_ins = Pattern,
                     title = ''Recurring Topic: '' @ fst tc,
                     description = ''You've saved '' @ showNat (snd tc)
                                   @ '' memories related to '' @ fst tc,
                     memoryIds = map id_mem
                       (filter (\<lambda>m. fst tc \<in> set (topics (aiMetadata m))) memories),
                     relevance = min 1 (real (snd tc) / real (length memories))\<rparr>])
                ?tops"
      by (rule map_cong [OF refl]) (rule emits)
    then show ?thesis
      by (simp only: concat_map_singleton)
  qed
  have allpat: "filter (\<lambda>i. type_ins i = Pattern)
                  (concat (map (patternInsight memories) ?tops))
                = concat (map (patternInsight memories) ?tops)"
    using patternInsight_type by (fastforce simp: filter_id_conv)
  have gen: "\<exists>r. generateInsights now memories =
                 Some (concat (map (patternInsight memories) ?tops) @ r)
               \<and> filter (\<lambda>i. type_ins i = Pattern) r = []"
    using assms(1) by (simp add: generateInsights_def tops)
  then obtain r where r: "generateInsights now memories =
                 Some (concat (map (patternInsight memories) ?tops) @ r)"
    and nr: "filter (\<lambda>i. type_ins i = Pattern) r = []"
    by blast
  have "filter (\<lambda>i. type_ins i = Pattern) (concat (map (patternInsight memories) ?tops) @ r) =
          filter (\<lambda>i. type_ins i = Pattern) (concat (map (patternInsight memories) ?tops))
          @ filter (\<lambda>i. type_ins i = Pattern) r"
    by (rule filter_append)
  also have "\<dots> = concat (map (patternInsight memories) ?tops)"
    unfolding nr allpat by (rule append_Nil2)
  finally have patterns:
    "filter (\<lambda>i. type_ins i = Pattern) (concat (map (patternInsight memories) ?tops) @ r) =
             map (\<lambda>tc. \<lparr>type_ins = Pattern,
                     title = ''Recurring Topic: '' @ fst tc,
                     description = ''You've saved '' @ showNat (snd tc)
                                   @ '' memories related to '' @ fst tc,
                     memoryIds = map id_mem
                       (filter (\<lambda>m. fst tc \<in> set (topics (aiMetadata m))) memories),
                     relevance = min 1 (real (snd tc) / real (length memories))\<rparr>)
                 ?tops"
    unfolding pat .
  have f: "forgottenMemories now sixCorpus = []"
    by (simp add: forgottenMemories_def sixCorpus_def exampleMemory_def orElse_def)
  have p: "map_option (\<lambda>tops. concat (map (patternInsight sixCorpus) tops)) (topTopics sixCorpus) =
             Some [\<lparr>type_ins = Pattern,
                   title = ''Recurring Topic: Design'',
                   description = ''You've saved 5 memories related to Design'',
                   memoryIds = [''d1'', ''d2'', ''d3'', ''d4'', ''d5''],
                   relevance = 5 / 6\<rparr>]"
    by code_simp
  have l: "\<not> length sixCorpus < 3"
    by (simp add: sixCorpus_def)
  have scenario: "generateInsights now sixCorpus =
             Some [\<lparr>type_ins = Pattern,
                   title = ''Recurring Topic: Design'',
                   description = ''You've saved 5 memories related to Design'',
                   memoryIds = [''d1'', ''d2'', ''d3'', ''d4'', ''d5''],
                   relevance = 5 / 6\<rparr>]"
    using p l unfolding generateInsights_def f by (auto split: option.splits)
  show ?thesis
    using tops r counts topicFrequency_distinct sub len sorted_tops complete patterns scenario
    by blast
qed


theorem insight_patterns_witness:
  "length sixCorpus \<ge> 3
   \<and> list_all (\<lambda>m. distinct (topics (aiMetadata m))) sixCorpus
   \<and> list_all (\<lambda>m. list_all (\<lambda>t. t \<notin> set inheritedProperties) (topics (aiMetadata m)))
         sixCorpus
   \<and> topicFrequency sixCorpus = [(''Design'', Count 5), (''Travel'', Count 1)]
   \<and> topTopics sixCorpus = Some [(''Design'', 5)]
   \<and> (\<exists>ins. generateInsights 0 sixCorpus = Some ins
         \<and> filter (\<lambda>i. type_ins i = Pattern) ins =
             [\<lparr>type_ins = Pattern,
                   title = ''Recurring Topic: Design'',
                   description = ''You've saved 5 memories related to Design'',
                   memoryIds = [''d1'', ''d2'', ''d3'', ''d4'', ''d5''],
                   relevance = 5 / 6\<rparr>])"
proof -
  have l: "length sixCorpus \<ge> 3"
    by (simp add: sixCorpus_def)
  have d: "list_all (\<lambda>m. distinct (topics (aiMetadata m))) sixCorpus"
    by code_simp
  then have d': "\<forall>m \<in> set sixCorpus. distinct (topics (aiMetadata m))"
    by (simp add: list_all_iff)
  have i: "list_all (\<lambda>m. list_all (\<lambda>t. t \<notin> set inheritedProperties) (topics (aiMetadata m)))
             sixCorpus"
    by code_simp
  then have i': "\<forall>m \<in> set sixCorpus. \<forall>t \<in> set (topics (aiMetadata m)).
                   t \<notin> set inheritedProperties"
    by (simp add: list_all_iff)
  have f: "topicFrequency sixCorpus = [(''Design'', Count 5), (''Travel'', Count 1)]"
    by code_simp
  have t: "topTopics sixCorpus = Some [(''Design'', 5)]"
    by code_simp
  have s: "showNat 5 = ''5''"
    by (simp add: showNat.simps)
  have m: "map id_mem (filter (\<lambda>m. ''Design'' \<in> set (topics (aiMetadata m))) sixCorpus)
             = [''d1'', ''d2'', ''d3'', ''d4'', ''d5'']"
    by code_simp
  have n: "length sixCorpus = 6"
    by (simp add: sixCorpus_def)
  from insight_patterns [OF l d' i', of 0]
  obtain tops ins where tt: "topTopics sixCorpus = Some tops"
    and g: "generateInsights 0 sixCorpus = Some ins"
    and pi: "filter (\<lambda>i. type_ins i = Pattern) ins =
           map (\<lambda>tc. \<lparr>type_ins = Pattern,
                     title = ''Recurring Topic: '' @ fst tc,
                     description = ''You've saved '' @ showNat (snd tc)
                                   @ '' memories related to '' @ fst tc,
                     memoryIds = map id_mem
                       (filter (\<lambda>m. fst tc \<in> set (topics (aiMetadata m))) sixCorpus),
                     relevance = min 1 (real (snd tc) / real (length sixCorpus))\<rparr>)
               tops"
    by blast
  have tp: "tops = [(''Design'', 5)]"
    using tt t by simp
  have "filter (\<lambda>i. type_ins i = Pattern) ins =
             [\<lparr>type_ins = Pattern,
                   title = ''Recurring Topic: Design'',
                   description = ''You've saved 5 memories related to Design'',
                   memoryIds = [''d1'', ''d2'', ''d3'', ''d4'', ''d5''],
                   relevance = 5 / 6\<rparr>]"
    unfolding pi tp by (simp add: s m n)
  then show ?thesis using l d i f t g by blast
qed

text \<open>
  The case the amended statement leaves out. Three memories tagged \<open>constructor\<close> give one
  entry whose value is not a number; it fails \<open>count >= 2\<close> and no insight is emitted. With
  other topics beside it, the order of the entries is left to the engine.
\<close>

lemma insight_inherited_property:
  "topicFrequency constructorCorpus = [(''constructor'', NotNumber)]
   \<and> generateInsights 0 constructorCorpus = Some []
   \<and> generateInsights 0 (constructorCorpus @ repeatedCorpus) = None"
  by code_simp

section \<open>Properties of the content analysis\<close>

lemma analyzeContent_parsed:
  "v \<noteq> JNull \<Longrightarrow>
   analyzeContent (Parsed v) =
     \<lparr>summary_raw = orText (property v ''summary'') ''No summary available.'',
      topics_raw = arrayOrEmpty (property v ''topics''),
      mood_raw = arrayOrEmpty (property v ''mood''),
      colors_raw = arrayOrEmpty (property v ''colors''),
      collection_raw = orText (property v ''collection'') ''General'',
      importance_raw = clampImportance (property v ''importance'')\<rparr>"
  by (cases v) (simp_all add: analyzeContent_def)

lemma analyzeContent_failure:
  "outcome \<in> {Rejected, NoText, Unparsable, Parsed JNull} \<Longrightarrow>
   analyzeContent outcome = failureMetadata"
  by (auto simp: analyzeContent_def)

lemma orText_cases:
  "(\<exists>s. orText v d = JStr s \<and> (s \<noteq> [] \<or> d = []))
   \<or> (\<exists>j. v = Some j \<and> (\<forall>s. j \<noteq> JStr s) \<and> truthy (Some j) \<and> orText v d = j)"
proof (cases v)
  case None
  then show ?thesis by (simp add: orText_def)
next
  case (Some j)
  then show ?thesis
    by (cases j) (auto simp: orText_def truthy_def)
qed

lemma clampImportance_range: "0 \<le> clampImportance v \<and> clampImportance v \<le> 1"
proof (cases v)
  case None
  then show ?thesis by (simp add: clampImportance_def)
next
  case (Some j)
  then show ?thesis by (cases j) (auto simp: clampImportance_def)
qed

text \<open>
  C10 as stated fails when the provider's summary is a truthy value that is not a string:
  it is returned as it is. Here the summary is the number 42.
\<close>

theorem analyzeContent_summary_counterexample:
  "summary_raw (analyzeContent (Parsed numericSummary)) = JNum 42"
  by code_simp


text \<open>
  C10, amended. For every outcome of the provider call, the object returned by
  \<open>analyzeContent\<close> has an importance in [0, 1] (the provider's number clamped into [0, 1],
  and 0.5 when it is missing or not a number); \<open>topics\<close>, \<open>mood\<close> and \<open>colors\<close> are arrays
  (the provider's array, and the empty array when it is missing or not an array); \<open>summary\<close>
  and \<open>collection\<close> are the provider's value when that is truthy and the default
  (``No summary available.'', ``General'') otherwise, so each is a non-empty string unless the
  provider's value is a truthy value that is not a string, which is returned as it is. The
  defaults are applied field by field on the parse path; the fixed object of the \<open>catch\<close>
  block is returned only when the whole analysis fails.
\<close>

theorem analyzeContent_defaults:
  "0 \<le> importance_raw (analyzeContent outcome)
   \<and> importance_raw (analyzeContent outcome) \<le> 1
   \<and> (\<forall>v x. outcome = Parsed v \<and> property v ''importance'' = Some (JNum x) \<longrightarrow>
          importance_raw (analyzeContent outcome) = max 0 (min 1 x))
   \<and> ((\<forall>v x. outcome = Parsed v \<longrightarrow> property v ''importance'' \<noteq> Some (JNum x)) \<longrightarrow>
          importance_raw (analyzeContent outcome) = 0.5)
   \<and> ((\<exists>s. summary_raw (analyzeContent outcome) = JStr s \<and> s \<noteq> [])
        \<or> (\<exists>v j. outcome = Parsed v \<and> property v ''summary'' = Some j \<and> (\<forall>s. j \<noteq> JStr s)
                 \<and> truthy (Some j) \<and> summary_raw (analyzeContent outcome) = j))
   \<and> ((\<exists>s. collection_raw (analyzeContent outcome) = JStr s \<and> s \<noteq> [])
        \<or> (\<exists>v j. outcome = Parsed v \<and> property v ''collection'' = Some j \<and> (\<forall>s. j \<noteq> JStr s)
                 \<and> truthy (Some j) \<and> collection_raw (analyzeContent outcome) = j))
   \<and> (\<forall>v. outcome = Parsed v \<and> v \<noteq> JNull \<longrightarrow>
          (truthy (property v ''summary'') \<longrightarrow>
             Some (summary_raw (analyzeContent outcome)) = property v ''summary'')
        \<and> (\<not> truthy (property v ''summary'') \<longrightarrow>
             summary_raw (analyzeContent outcome) = JStr ''No summary available.'')
        \<and> (truthy (property v ''collection'') \<longrightarrow>
             Some (collection_raw (analyzeContent outcome)) = property v ''collection'')
        \<and> (\<not> truthy (property v ''collection'') \<longrightarrow>
             collection_raw (analyzeContent outcome) = JStr ''General'')
        \<and> topics_raw (analyzeContent outcome) =
             (case property v ''topics'' of Some (JArr xs) \<Rightarrow> xs | _ \<Rightarrow> [])
        \<and> mood_raw (analyzeContent outcome) =
             (case property v ''mood'' of Some (JArr xs) \<Rightarrow> xs | _ \<Rightarrow> [])
        \<and> colors_raw (analyzeContent outcome) =
             (case property v ''colors'' of Some (JArr xs) \<Rightarrow> xs | _ \<Rightarrow> []))
   \<and> analyzeContent (Parsed (JObj [])) =
         \<lparr>summary_raw = JStr ''No summary available.'', topics_raw = [], mood_raw = [],
          colors_raw = [], collection_raw = JStr ''General'', importance_raw = 0.5\<rparr>
   \<and> (outcome \<in> {Rejected, NoText, Unparsable, Parsed JNull} \<longrightarrow>
          analyzeContent outcome =
            \<lparr>summary_raw = JStr ''Could not analyze content.'',
             topics_raw = [JStr ''Uncategorized''], mood_raw = [],
             colors_raw = [JStr ''#CCCCCC''], collection_raw = JStr ''General'',
             importance_raw = 0.5\<rparr>)"
proof -
  consider (fail) "outcome \<in> {Rejected, NoText, Unparsable, Parsed JNull}"
    | (parsed) v where "outcome = Parsed v" "v \<noteq> JNull"
    by (cases outcome) auto
  then have main:
    "0 \<le> importance_raw (analyzeContent outcome)
     \<and> importance_raw (analyzeContent outcome) \<le> 1
     \<and> (\<forall>v x. outcome = Parsed v \<and> property v ''importance'' = Some (JNum x) \<longrightarrow>
          importance_raw (analyzeContent outcome) = max 0 (min 1 x))
     \<and> ((\<forall>v x. outcome = Parsed v \<longrightarrow> property v ''importance'' \<noteq> Some (JNum x)) \<longrightarrow>
          importance_raw (analyzeContent outcome) = 0.5)
     \<and> ((\<exists>s. summary_raw (analyzeContent outcome) = JStr s \<and> s \<noteq> [])
        \<or> (\<exists>v j. outcome = Parsed v \<and> property v ''summary'' = Some j \<and> (\<forall>s. j \<noteq> JStr s)
                 \<and> truthy (Some j) \<and> summary_raw (analyzeContent outcome) = j))
     \<and> ((\<exists>s. collection_raw (analyzeContent outcome) = JStr s \<and> s \<noteq> [])
        \<or> (\<exists>v j. outcome = Parsed v \<and> property v ''collection'' = Some j \<and> (\<forall>s. j \<noteq> JStr s)
                 \<and> truthy (Some j) \<and> collection_raw (analyzeContent outcome) = j))"
  proof cases
    case fail
    have "analyzeContent outcome = failureMetadata"
      using fail by (rule analyzeContent_failure)
    moreover have "property JNull ''importance'' = None"
      by (simp add: property_def)
    ultimately show ?thesis
      using fail by (auto simp: failureMetadata_def)
  next
    case parsed
    have i: "importance_raw (analyzeContent outcome) = clampImportance (property v ''importance'')"
      and s: "summary_raw (analyzeContent outcome)
                = orText (property v ''summary'') ''No summary available.''"
      and c: "collection_raw (analyzeContent outcome)
                = orText (property v ''collection'') ''General''"
      using parsed by (simp_all add: analyzeContent_parsed)
    have r: "0 \<le> importance_raw (analyzeContent outcome)
             \<and> importance_raw (analyzeContent outcome) \<le> 1"
      unfolding i by (rule clampImportance_range)
    have n: "\<forall>x. property v ''importance'' = Some (JNum x) \<longrightarrow>
               importance_raw (analyzeContent outcome) = max 0 (min 1 x)"
      unfolding i by (simp add: clampImportance_def)
    have m: "(\<forall>x. property v ''importance'' \<noteq> Some (JNum x)) \<longrightarrow>
               importance_raw (analyzeContent outcome) = 0.5"
      unfolding i by (auto simp: clampImportance_def split: option.splits json.splits)
    have so: "(\<exists>s. summary_raw (analyzeContent outcome) = JStr s \<and> s \<noteq> [])
        \<or> (\<exists>j. property v ''summary'' = Some j \<and> (\<forall>s. j \<noteq> JStr s)
                 \<and> truthy (Some j) \<and> summary_raw (analyzeContent outcome) = j)"
      unfolding s using orText_cases [of "property v ''summary''" "''No summary available.''"]
      by simp
    have co: "(\<exists>s. collection_raw (analyzeContent outcome) = JStr s \<and> s \<noteq> [])
        \<or> (\<exists>j. property v ''collection'' = Some j \<and> (\<forall>s. j \<noteq> JStr s)
                 \<and> truthy (Some j) \<and> collection_raw (analyzeContent outcome) = j)"
      unfolding c using orText_cases [of "property v ''collection''" "''General''"]
      by simp
    show ?thesis
      using r n m so co parsed(1) by blast
  qed
  have fields: "\<forall>v. outcome = Parsed v \<and> v \<noteq> JNull \<longrightarrow>
          (truthy (property v ''summary'') \<longrightarrow>
             Some (summary_raw (analyzeContent outcome)) = property v ''summary'')
        \<and> (\<not> truthy (property v ''summary'') \<longrightarrow>
             summary_raw (analyzeContent outcome) = JStr ''No summary available.'')
        \<and> (truthy (property v ''collection'') \<longrightarrow>
             Some (collection_raw (analyzeContent outcome)) = property v ''collection'')
        \<and> (\<not> truthy (property v ''collection'') \<longrightarrow>
             collection_raw (analyzeContent outcome) = JStr ''General'')
        \<and> topics_raw (analyzeContent outcome) =
             (case property v ''topics'' of Some (JArr xs) \<Rightarrow> xs | _ \<Rightarrow> [])
        \<and> mood_raw (analyzeContent outcome) =
             (case property v ''mood'' of Some (JArr xs) \<Rightarrow> xs | _ \<Rightarrow> [])
        \<and> colors_raw (analyzeContent outcome) =
             (case property v ''colors'' of Some (JArr xs) \<Rightarrow> xs | _ \<Rightarrow> [])"
    by (auto simp: analyzeContent_parsed orText_def arrayOrEmpty_def truthy_def split: option.splits)
  have empty: "analyzeContent (Parsed (JObj [])) =
         \<lparr>summary_raw = JStr ''No summary available.'', topics_raw = [], mood_raw = [],
          colors_raw = [], collection_raw = JStr ''General'', importance_raw = 0.5\<rparr>"
    by (simp add: analyzeContent_def property_def orText_def arrayOrEmpty_def clampImportance_def)
  have failure: "outcome \<in> {Rejected, NoText, Unparsable, Parsed JNull} \<longrightarrow>
          analyzeContent outcome =
            \<lparr>summary_raw = JStr ''Could not analyze content.'',
             topics_raw = [JStr ''Uncategorized''], mood_raw = [],
             colors_raw = [JStr ''#CCCCCC''], collection_raw = JStr ''General'',
             importance_raw = 0.5\<rparr>"
    using analyzeContent_failure [of outcome] by (simp add: failureMetadata_def)
  show ?thesis
    using main fields empty failure by blast
qed

theorem analyzeContent_defaults_witness:
  "analyzeContent (Parsed sloppyAnswer) =
     \<lparr>summary_raw = JStr ''A note'', topics_raw = [], mood_raw = [], colors_raw = [],
      collection_raw = JStr ''General'', importance_raw = 1\<rparr>
   \<and> property sloppyAnswer ''importance'' = Some (JNum 1.7)
   \<and> importance_raw (analyzeContent (Parsed sloppyAnswer)) = max 0 (min 1 1.7)"
proof -
  have v: "analyzeContent (Parsed sloppyAnswer) =
     \<lparr>summary_raw = JStr ''A note'', topics_raw = [], mood_raw = [], colors_raw = [],
      collection_raw = JStr ''General'', importance_raw = 1\<rparr>"
    by code_simp
  have p: "property sloppyAnswer ''importance'' = Some (JNum 1.7)"
    by code_simp
  from analyzeContent_defaults [of "Parsed sloppyAnswer"] p
  have "importance_raw (analyzeContent (Parsed sloppyAnswer)) = max 0 (min 1 1.7)"
    by blast
  then show ?thesis using v p by blast
qed

end
